theory Spec2Isabelle
  imports Complex_Main "HOL-Library.Log_Nat" "HOL-Library.Power_By_Squaring"
begin

section \<open>JavaScript numbers\<close>

text \<open>
  The views compute on JavaScript numbers, which are IEEE 754 binary64 values.  A number
  is embedded as its exact rational value, or as one of the infinities, or as \<open>NaN\<close>;
  every arithmetic operation computes the exact result and rounds it to the nearest
  double, a tie to the even significand.  The sign of a zero is not kept: no operation of
  the code embedded here divides by zero or prints a zero.  An absent value
  (\<open>undefined\<close>, \<open>null\<close>) is \<open>None\<close>.
\<close>

datatype number = Fin (val: rat) | PInf | NInf | NaN

text \<open>Powers of two with an integer exponent.\<close>

definition pow2 :: "int \<Rightarrow> rat" where
  "pow2 e = (if 0 \<le> e then 2 ^ nat e else 1 / 2 ^ nat (- e))"

text \<open>
  \<open>ilog2 x\<close> is the exponent \<open>k\<close> with \<open>2^k \<le> x < 2^(k+1)\<close> of a positive rational, found
  from the bit lengths of its numerator and denominator.
\<close>

definition ilog2 :: "rat \<Rightarrow> int" where
  "ilog2 x = (let (p, q) = quotient_of x; d = bitlen p - bitlen q
              in if pow2 d \<le> x then d else d - 1)"

text \<open>The nearest integer, a tie to the even one.\<close>

definition round_even :: "rat \<Rightarrow> int" where
  "round_even y = (let f = \<lfloor>y\<rfloor>; r = y - of_int f
                   in if r < 1 / 2 then f else if 1 / 2 < r then f + 1
                      else if even f then f else f + 1)"

text \<open>
  The nearest value with a significand of 53 bits, or with the least exponent
  \<open>-1074\<close> of the subnormal range; the exponent is not bounded above here.
\<close>

definition rd :: "rat \<Rightarrow> rat" where
  "rd x = (if x = 0 then 0
           else let e = max (ilog2 \<bar>x\<bar> - 52) (- 1074)
                in of_int (round_even (x / pow2 e)) * pow2 e)"

text \<open>Rounding a result: a rounded magnitude of \<open>2^1024\<close> or more overflows to an infinity.\<close>

definition rnd :: "rat \<Rightarrow> number" where
  "rnd x = (let y = rd x
            in if y = 0 then Fin 0
               else if 1024 \<le> ilog2 \<bar>y\<bar> then (if 0 < y then PInf else NInf)
               else Fin y)"

text \<open>A decimal literal of the source denotes the double nearest to it.\<close>

definition lit :: "rat \<Rightarrow> number" where
  "lit q = rnd q"

text \<open>Unary minus, \<open>+\<close>, \<open>-\<close>, \<open>*\<close> and \<open>/\<close>.\<close>

fun js_neg :: "number \<Rightarrow> number" where
  "js_neg (Fin x) = Fin (- x)"
| "js_neg PInf = NInf"
| "js_neg NInf = PInf"
| "js_neg NaN = NaN"

fun js_add :: "number \<Rightarrow> number \<Rightarrow> number" where
  "js_add (Fin x) (Fin y) = rnd (x + y)"
| "js_add NaN _ = NaN"
| "js_add _ NaN = NaN"
| "js_add PInf NInf = NaN"
| "js_add NInf PInf = NaN"
| "js_add PInf _ = PInf"
| "js_add _ PInf = PInf"
| "js_add NInf _ = NInf"
| "js_add _ NInf = NInf"

definition js_sub :: "number \<Rightarrow> number \<Rightarrow> number" where
  "js_sub a b = js_add a (js_neg b)"

fun js_mul :: "number \<Rightarrow> number \<Rightarrow> number" where
  "js_mul (Fin x) (Fin y) = rnd (x * y)"
| "js_mul NaN _ = NaN"
| "js_mul _ NaN = NaN"
| "js_mul (Fin x) PInf = (if x = 0 then NaN else if 0 < x then PInf else NInf)"
| "js_mul (Fin x) NInf = (if x = 0 then NaN else if 0 < x then NInf else PInf)"
| "js_mul PInf (Fin y) = (if y = 0 then NaN else if 0 < y then PInf else NInf)"
| "js_mul NInf (Fin y) = (if y = 0 then NaN else if 0 < y then NInf else PInf)"
| "js_mul PInf PInf = PInf"
| "js_mul NInf NInf = PInf"
| "js_mul PInf NInf = NInf"
| "js_mul NInf PInf = NInf"

text \<open>A zero divisor is taken as \<open>+0\<close>.\<close>

fun js_div :: "number \<Rightarrow> number \<Rightarrow> number" where
  "js_div (Fin x) (Fin y) =
     (if y = 0 then (if x = 0 then NaN else if 0 < x then PInf else NInf) else rnd (x / y))"
| "js_div NaN _ = NaN"
| "js_div _ NaN = NaN"
| "js_div (Fin x) PInf = Fin 0"
| "js_div (Fin x) NInf = Fin 0"
| "js_div PInf (Fin y) = (if 0 \<le> y then PInf else NInf)"
| "js_div NInf (Fin y) = (if 0 \<le> y then NInf else PInf)"
| "js_div _ _ = NaN"

text \<open>The comparisons \<open><\<close>, \<open>>\<close>, \<open><=\<close> and \<open>>=\<close>; each is false when an operand is \<open>NaN\<close>.\<close>

fun js_lt :: "number \<Rightarrow> number \<Rightarrow> bool" where
  "js_lt (Fin x) (Fin y) = (x < y)"
| "js_lt NaN _ = False"
| "js_lt _ NaN = False"
| "js_lt NInf NInf = False"
| "js_lt NInf _ = True"
| "js_lt PInf _ = False"
| "js_lt _ PInf = True"
| "js_lt _ NInf = False"

definition js_gt :: "number \<Rightarrow> number \<Rightarrow> bool" where
  "js_gt a b = js_lt b a"

definition js_le :: "number \<Rightarrow> number \<Rightarrow> bool" where
  "js_le a b = (a \<noteq> NaN \<and> b \<noteq> NaN \<and> \<not> js_lt b a)"

definition js_ge :: "number \<Rightarrow> number \<Rightarrow> bool" where
  "js_ge a b = js_le b a"

text \<open>\<open>Math.max\<close> and \<open>Math.min\<close> of two numbers: \<open>NaN\<close> when either one is.\<close>

definition Math_max :: "number \<Rightarrow> number \<Rightarrow> number" where
  "Math_max a b = (if a = NaN \<or> b = NaN then NaN else if js_lt a b then b else a)"

definition Math_min :: "number \<Rightarrow> number \<Rightarrow> number" where
  "Math_min a b = (if a = NaN \<or> b = NaN then NaN else if js_lt b a then b else a)"

text \<open>
  \<open>Math.round\<close> gives the nearest integer, a tie towards plus infinity; it does not add
  0.5 in double arithmetic.
\<close>

fun Math_round :: "number \<Rightarrow> number" where
  "Math_round (Fin x) = Fin (of_int \<lfloor>x + 1 / 2\<rfloor>)"
| "Math_round a = a"

text \<open>
  \<open>Number(x.toFixed(f))\<close>.  On a finite \<open>x\<close> below \<open>10^21\<close> in magnitude \<open>toFixed\<close> takes
  the sign off, picks the integer \<open>n\<close> with \<open>n / 10^f\<close> closest to the exact magnitude, the
  larger one on a tie, and prints it with \<open>f\<close> decimals; \<open>Number\<close> reads the decimal back as
  the nearest double.  Otherwise \<open>toFixed\<close> prints the number as \<open>String\<close> does, which
  \<open>Number\<close> reads back unchanged.
\<close>

fun Number_toFixed :: "number \<Rightarrow> nat \<Rightarrow> number" where
  "Number_toFixed (Fin x) f =
     (if 1000000000000000000000 \<le> \<bar>x\<bar> then Fin x
      else let n = \<lfloor>\<bar>x\<bar> * 10 ^ f + 1 / 2\<rfloor>
           in rnd ((if x < 0 then - 1 else 1) * (of_int n / 10 ^ f)))"
| "Number_toFixed a f = a"

text \<open>
  "Rounded to 2 decimals", as the specification says it of a value \<open>v\<close> and a result
  \<open>r\<close>: \<open>r\<close> is the number that a decimal with two fractional digits denotes, that
  decimal is the one nearest to \<open>v\<close>, and of two equally near it is the one of the larger
  magnitude.  A value that is not finite, or is \<open>10^21\<close> or more in magnitude, has no such
  decimal and is its own result.
\<close>

definition rounded_to_2_decimals :: "number \<Rightarrow> number \<Rightarrow> bool" where
  "rounded_to_2_decimals v r =
     (case v of
        Fin x \<Rightarrow>
          if \<bar>x\<bar> < 1000000000000000000000
          then \<exists>n :: int. - (1 / 200) < of_int n / 100 - \<bar>x\<bar> \<and> of_int n / 100 - \<bar>x\<bar> \<le> 1 / 200
                 \<and> r = lit ((if x < 0 then - 1 else 1) * (of_int n / 100))
          else r = v
      | _ \<Rightarrow> r = v)"

section \<open>Array reads and defaults\<close>

text \<open>
  \<open>xs[i]\<close> reads \<open>undefined\<close> outside the array, also at the index \<open>-1\<close> that
  \<open>xs[xs.length - 1]\<close> computes on an empty array.
\<close>

definition elem_at :: "'a list \<Rightarrow> int \<Rightarrow> 'a option" where
  "elem_at xs i = (if 0 \<le> i \<and> i < int (length xs) then Some (xs ! nat i) else None)"

text \<open>
  \<open>a || b\<close> on a number that may be absent: \<open>undefined\<close>, \<open>0\<close> and \<open>NaN\<close> are falsy.
\<close>

definition or_else :: "number option \<Rightarrow> number \<Rightarrow> number" where
  "or_else a b = (case a of None \<Rightarrow> b | Some v \<Rightarrow> if v = Fin 0 \<or> v = NaN then b else v)"

text \<open>\<open>a ?? b\<close>: only \<open>undefined\<close> and \<open>null\<close> give way to \<open>b\<close>.\<close>

definition nullish :: "'a option \<Rightarrow> 'a \<Rightarrow> 'a" where
  "nullish a b = (case a of None \<Rightarrow> b | Some v \<Rightarrow> v)"

section \<open>Capacity-risk classification\<close>

definition getRisk :: "number \<Rightarrow> number \<Rightarrow> string" where
  "getRisk forecast capacity =
     (let gap = js_sub capacity forecast in
      if js_ge gap (js_mul (lit (1 / 10)) forecast) then ''Sufficient''
      else if js_lt gap (js_mul (js_neg (lit (5 / 100))) forecast) then ''Shortage''
      else ''Over / Slight risk'')"

section \<open>The forecast view: metrics derived from the forecast sequence\<close>

text \<open>
  A metric as the view builds it; the \<open>icon\<close> field holds a rendered element and is
  left out, and the field \<open>id\<close> is \<open>id'\<close> here.  A pie slice is the object
  \<open>{name, value}\<close>.
\<close>

record pie_slice =
  pie_name :: string
  pie_value :: number

record metric =
  id' :: string
  title :: string
  unit :: string
  current :: number
  forecast :: "number list"
  pie :: "pie_slice list"

text \<open>
  The \<open>pie\<close> fields of the storage and the network metric are immediately invoked
  functions over the forecast and the current value of the metric; each is a function
  of those two here.
\<close>

definition storage_pie :: "number list \<Rightarrow> number \<Rightarrow> pie_slice list" where
  "storage_pie storageForecast storageCurrent =
     (let next = or_else (elem_at storageForecast (int (length storageForecast) - 1))
                   storageCurrent;
          usedPercent =
            Math_round (js_mul (js_div storageCurrent (Math_max (lit (1 / 10)) next)) (Fin 100))
      in [\<lparr>pie_name = ''Used'', pie_value = Math_min (Fin 100) usedPercent\<rparr>,
          \<lparr>pie_name = ''Remaining'',
            pie_value = Math_max (Fin 0) (js_sub (Fin 100) usedPercent)\<rparr>])"

definition network_pie :: "number list \<Rightarrow> number \<Rightarrow> pie_slice list" where
  "network_pie netForecast netCurrent =
     (let next = or_else (elem_at netForecast (int (length netForecast) - 1)) netCurrent;
          usedPercent =
            Math_round (js_mul (js_div netCurrent (Math_max (Fin 1) next)) (Fin 100))
      in [\<lparr>pie_name = ''Used'', pie_value = Math_min (Fin 100) usedPercent\<rparr>,
          \<lparr>pie_name = ''Remaining'',
            pie_value = Math_max (Fin 0) (js_sub (Fin 100) usedPercent)\<rparr>])"

text \<open>
  \<open>metrics\<close> of \<open>Forecasts\<close>; the argument is the state \<open>forecastData\<close>, \<open>None\<close> while
  it is still \<open>null\<close>.  The entries are numbers, which \<open>Number\<close> returns unchanged.
\<close>

definition metrics :: "number list option \<Rightarrow> metric list" where
  "metrics forecastData =
     (if forecastData = None \<or> length (the forecastData) = 0 then
        [\<lparr>id' = ''cpu'', title = ''CPU Demand'', unit = ''%'', current = Fin 0,
          forecast = replicate 7 (Fin 0),
          pie = [\<lparr>pie_name = ''Used'', pie_value = Fin 0\<rparr>,
                 \<lparr>pie_name = ''Remaining'', pie_value = Fin 100\<rparr>]\<rparr>,
         \<lparr>id' = ''storage'', title = ''Storage Usage'', unit = ''TB'', current = Fin 0,
          forecast = replicate 7 (Fin 0),
          pie = [\<lparr>pie_name = ''Used'', pie_value = Fin 0\<rparr>,
                 \<lparr>pie_name = ''Remaining'', pie_value = Fin 100\<rparr>]\<rparr>,
         \<lparr>id' = ''network'', title = ''Network Bandwidth'', unit = ''Mbps'', current = Fin 0,
          forecast = replicate 7 (Fin 0),
          pie = [\<lparr>pie_name = ''Used'', pie_value = Fin 0\<rparr>,
                 \<lparr>pie_name = ''Remaining'', pie_value = Fin 100\<rparr>]\<rparr>]
      else
        (let cpuForecast = map (\<lambda>v. Number_toFixed v 2) (take 7 (the forecastData));
             cpuCurrent = or_else (elem_at cpuForecast 0) (Fin 0);
             storageCurrent =
               Number_toFixed (js_mul (js_mul cpuCurrent (lit (1 / 100))) (lit (25 / 10))) 2;
             storageForecast =
               map (\<lambda>cpu. Number_toFixed (js_mul (js_mul cpu (lit (1 / 100))) (lit (25 / 10))) 2)
                 cpuForecast;
             netCurrent = Number_toFixed (js_mul cpuCurrent (Fin 10)) 2;
             netForecast = map (\<lambda>cpu. Number_toFixed (js_mul cpu (Fin 10)) 2) cpuForecast
         in
          [\<lparr>id' = ''cpu'', title = ''CPU Demand'', unit = ''%'', current = cpuCurrent,
            forecast = cpuForecast,
            pie = [\<lparr>pie_name = ''Used'', pie_value = cpuCurrent\<rparr>,
                   \<lparr>pie_name = ''Remaining'',
                     pie_value = Math_max (Fin 0) (js_sub (Fin 100) cpuCurrent)\<rparr>]\<rparr>,
           \<lparr>id' = ''storage'', title = ''Storage Usage'', unit = ''TB'',
            current = storageCurrent, forecast = storageForecast,
            pie = storage_pie storageForecast storageCurrent\<rparr>,
           \<lparr>id' = ''network'', title = ''Network Bandwidth'', unit = ''Mbps'',
            current = netCurrent, forecast = netForecast,
            pie = network_pie netForecast netCurrent\<rparr>]))"

section \<open>The forecast view: capacity rows\<close>

text \<open>The capacity-planning response \<open>{capacity, avg_forecast}\<close>; either field may be absent.\<close>

record capacity_response =
  capacity :: "number option"
  avg_forecast :: "number option"

text \<open>
  The objects \<open>generateCapacityData\<close> returns, and the rows \<open>capacityRows\<close> makes of them by
  adding \<open>gap\<close>, \<open>status\<close> and \<open>band\<close>.
\<close>

record capacity_point =
  date :: string
  forecast :: number
  capacity :: number
  lower :: number
  upper :: number

record capacity_row = capacity_point +
  gap :: number
  status :: string
  band :: number

definition generateCapacityData :: "capacity_point list" where
  "generateCapacityData =
     (let base = Fin 120 in
      [\<lparr>date = ''Week 1'', forecast = base, capacity = js_add base (Fin 35),
         lower = js_sub base (Fin 20), upper = js_add base (Fin 15)\<rparr>,
       \<lparr>date = ''Week 2'', forecast = js_add base (Fin 15), capacity = js_add base (Fin 20),
         lower = js_sub base (Fin 10), upper = js_add base (Fin 25)\<rparr>,
       \<lparr>date = ''Week 3'', forecast = js_add base (Fin 30), capacity = js_add base (Fin 30),
         lower = base, upper = js_add base (Fin 35)\<rparr>,
       \<lparr>date = ''Week 4'', forecast = js_add base (Fin 50), capacity = js_add base (Fin 45),
         lower = js_add base (Fin 10), upper = js_add base (Fin 45)\<rparr>])"

text \<open>
  The callback that \<open>capacityRows\<close> maps over the week labels, with the \<open>capacity\<close>
  (here \<open>capacity'\<close>), \<open>avgForecast\<close> and \<open>forecastData\<close> of its closure as arguments.
\<close>

definition week_row :: "number \<Rightarrow> number \<Rightarrow> number list \<Rightarrow> string \<Rightarrow> nat \<Rightarrow> capacity_row" where
  "week_row capacity' avgForecast forecastData week idx =
     (let forecast = or_else (elem_at forecastData (int idx)) avgForecast;
          weekCapacity = js_add capacity' (js_mul (Fin (of_nat idx)) (Fin 100))
      in \<lparr>date = week, forecast = Number_toFixed forecast 2, capacity = weekCapacity,
          lower = Number_toFixed (js_mul forecast (lit (85 / 100))) 2,
          upper = Number_toFixed (js_mul forecast (lit (115 / 100))) 2,
          gap = Number_toFixed (js_sub weekCapacity forecast) 2,
          status = getRisk forecast weekCapacity,
          band = Number_toFixed (js_mul forecast (lit (3 / 10))) 2\<rparr>)"

text \<open>
  \<open>capacityRows\<close> of \<open>Forecasts\<close>, from the states \<open>capacityData\<close> and \<open>forecastData\<close>.  An
  empty array is truthy, so only \<open>null\<close> takes the fallback.
\<close>

definition capacityRows ::
  "capacity_response option \<Rightarrow> number list option \<Rightarrow> capacity_row list" where
  "capacityRows capacityData forecastData =
     (if capacityData = None \<or> forecastData = None then
        map (\<lambda>d. capacity_point.extend d
                  \<lparr>gap = js_sub (capacity d) (forecast d),
                   status = getRisk (forecast d) (capacity d),
                   band = Math_round (js_mul (forecast d) (lit (3 / 10)))\<rparr>)
            generateCapacityData
      else
        (let weeks = [''Week 1'', ''Week 2'', ''Week 3'', ''Week 4''];
             capacity = or_else (capacity_response.capacity (the capacityData)) (Fin 10000);
             avgForecast = or_else (avg_forecast (the capacityData)) (Fin 0)
         in map (\<lambda>(idx, week). week_row capacity avgForecast (the forecastData) week idx)
                (enumerate 0 weeks)))"

section \<open>The forecast view: what-if simulation\<close>

record whatif_response =
  base_cpu :: "number list option"
  simulated_cpu :: "number list option"
  base_storage :: "number list option"
  simulated_storage :: "number list option"

record whatif_results =
  baseCpu :: number
  baseStorage :: number
  simulatedCpu :: number
  simulatedStorage :: number

text \<open>
  \<open>whatIfBackend?.simulated_cpu?.[whatIfBackend.simulated_cpu.length - 1]\<close> and its
  storage twin: absent when the state is \<open>null\<close>, when the field is missing and when the
  series is empty.
\<close>

definition beSimCpu :: "whatif_response option \<Rightarrow> number option" where
  "beSimCpu whatIfBackend =
     (case whatIfBackend of
        None \<Rightarrow> None
      | Some b \<Rightarrow>
          (case simulated_cpu b of
             None \<Rightarrow> None
           | Some xs \<Rightarrow> elem_at xs (int (length xs) - 1)))"

definition beSimStorage :: "whatif_response option \<Rightarrow> number option" where
  "beSimStorage whatIfBackend =
     (case whatIfBackend of
        None \<Rightarrow> None
      | Some b \<Rightarrow>
          (case simulated_storage b of
             None \<Rightarrow> None
           | Some xs \<Rightarrow> elem_at xs (int (length xs) - 1)))"

text \<open>\<open>whatIfResults\<close>; \<open>None\<close> is its \<open>return null\<close>.\<close>

definition whatIfResults ::
  "metric list \<Rightarrow> number \<Rightarrow> number \<Rightarrow> whatif_response option \<Rightarrow> whatif_results option" where
  "whatIfResults ms workloadDelta trafficDelta whatIfBackend =
     (case (find (\<lambda>m. id' m = ''cpu'') ms, find (\<lambda>m. id' m = ''storage'') ms) of
        (Some cpuMetric, Some storageMetric) \<Rightarrow>
          (let baseCpu =
                 nullish (elem_at (metric.forecast cpuMetric)
                            (int (length (metric.forecast cpuMetric)) - 1))
                   (current cpuMetric);
               baseStorage =
                 nullish (elem_at (metric.forecast storageMetric)
                            (int (length (metric.forecast storageMetric)) - 1))
                   (current storageMetric);
               cpuFactor = js_add (Fin 1) (js_div workloadDelta (Fin 100));
               storageFactor = js_add (Fin 1) (js_div trafficDelta (Fin 100));
               simulatedCpu = Number_toFixed (js_mul baseCpu cpuFactor) 2;
               simulatedStorage = Number_toFixed (js_mul baseStorage storageFactor) 2
           in Some \<lparr>baseCpu = baseCpu, baseStorage = baseStorage,
                     simulatedCpu = nullish (beSimCpu whatIfBackend) simulatedCpu,
                     simulatedStorage = nullish (beSimStorage whatIfBackend) simulatedStorage\<rparr>)
      | _ \<Rightarrow> None)"

section \<open>The forecast view: high-risk alerts\<close>

text \<open>
  \<open>showHighRiskAlert\<close> raises one error toast from its three arguments; the toasts
  raised so far are the state it extends.
\<close>

record toast =
  resource :: string
  usage :: number
  threshold :: number

definition showHighRiskAlert :: "toast \<Rightarrow> toast list \<Rightarrow> toast list" where
  "showHighRiskAlert args toasts = toasts @ [args]"

text \<open>
  The effect of \<open>Forecasts\<close> that runs on \<open>capacityRows\<close> and \<open>metrics\<close>.  Every \<open>forecast\<close>
  of a metric is an array; the comparison \<open>undefined > 80\<close> of an empty one is false.
\<close>

definition risk_effect :: "capacity_row list \<Rightarrow> metric list \<Rightarrow> toast list \<Rightarrow> toast list" where
  "risk_effect rows ms toasts =
     (let week4 = find (\<lambda>r. date r = ''Week 4'') rows;
          toasts1 =
            (case week4 of
               Some w \<Rightarrow>
                 if status w = ''Shortage''
                 then showHighRiskAlert
                        \<lparr>resource = ''Capacity (Week 4)'', usage = forecast w,
                          threshold = capacity w\<rparr> toasts
                 else toasts
             | None \<Rightarrow> toasts);
          cpuMetric = find (\<lambda>m. id' m = ''cpu'') ms
      in case cpuMetric of
           Some m \<Rightarrow>
             (let nextWeekCpu = elem_at (metric.forecast m) (int (length (metric.forecast m)) - 1);
                  cpuThreshold = Fin 80
              in case nextWeekCpu of
                   Some v \<Rightarrow>
                     if js_gt v cpuThreshold
                     then showHighRiskAlert
                            \<lparr>resource = ''CPU (next week)'', usage = v,
                              threshold = cpuThreshold\<rparr> toasts1
                     else toasts1
                 | None \<Rightarrow> toasts1)
         | None \<Rightarrow> toasts1)"

section \<open>The forecast view: requests\<close>




record optimization_response =
  opt_status :: "string option"
  suggested_change :: "number option"
  opt_recommendation :: "string option"

text \<open>
  The states of \<open>Forecasts\<close> that the requests write; \<open>region\<close> is \<open>filters.region ||
  "East-US"\<close>.  The fields \<open>status\<close> and \<open>recommendation\<close> of the optimisation response are
  \<open>opt_status\<close> and \<open>opt_recommendation\<close> here.
\<close>

record forecasts_state =
  forecastData :: "number list option"
  capacityData :: "capacity_response option"
  isLoading :: bool
  error :: "string option"
  optimizationData :: "optimization_response option"
  whatIfBackend :: "whatif_response option"




section \<open>The multi-region view\<close>

record region =
  name :: string
  cpuUsage :: number
  storageUsage :: number
  forecast :: "number list"
  peakHours :: "string list"
  recommendation :: string


record multi_region_state =
  allRegions :: "region list"
  selectedRegions :: "string list"
  isLoading :: bool
  error :: "string option"


text \<open>
  \<open>handleToggleRegion\<close> passes this updater to \<open>setSelectedRegions\<close>; the handler itself
  is the updater applied to the state.
\<close>

definition toggle_selected :: "string \<Rightarrow> string list \<Rightarrow> string list" where
  "toggle_selected n prev =
     (if n \<in> set prev then filter (\<lambda>r. r \<noteq> n) prev else prev @ [n])"

definition handleToggleRegion :: "string \<Rightarrow> multi_region_state \<Rightarrow> multi_region_state" where
  "handleToggleRegion n s = s\<lparr>selectedRegions := toggle_selected n (selectedRegions s)\<rparr>"

section \<open>The header: notification bell\<close>

text \<open>An alert \<open>{type, message, severity}\<close>; the field \<open>type\<close> is \<open>ntype\<close> here.\<close>

record notification =
  ntype :: string
  message :: string
  severity :: string

text \<open>
  What the \<open>alerts\<close> field of the response may hold: an array of alerts, or anything
  else (\<open>Array.isArray\<close> is false on each of the other values).
\<close>

datatype alerts_field =
    Undefined
  | Null
  | Num number
  | Str string
  | Arr "notification list"

record alerts_response =
  alerts :: alerts_field

record header_state =
  showNotifications :: bool
  notifications :: "notification list"
  notifLoading :: bool

definition handleBellClick :: "header_state \<Rightarrow> string + alerts_response \<Rightarrow> header_state" where
  "handleBellClick s fetchAlerts =
     (let next = \<not> showNotifications s;
          s1 = s\<lparr>showNotifications := next\<rparr>
      in if next then
           (let s2 = s1\<lparr>notifLoading := True\<rparr>;
                s3 =
                  (case fetchAlerts of
                     Inr data \<Rightarrow>
                       s2\<lparr>notifications :=
                            (case alerts data of Arr as \<Rightarrow> as | _ \<Rightarrow> [])\<rparr>
                   | Inl _ \<Rightarrow>
                       s2\<lparr>notifications :=
                            [\<lparr>ntype = ''system'',
                              message = ''Notifications unavailable. Backend not responding.'',
                              severity = ''low''\<rparr>]\<rparr>)
            in s3\<lparr>notifLoading := False\<rparr>)
         else s1)"

section \<open>Properties\<close>

subsection \<open>Evaluating and bounding the rounding\<close>

lemma pow2_code [code]:
  "pow2 e = (if 0 \<le> e then efficient_funpow (*) 1 2 (nat e)
             else 1 / efficient_funpow (*) 1 2 (nat (- e)))"
  by (simp add: pow2_def power_by_squaring)

lemma pow2_pos: "0 < pow2 e"
  by (simp add: pow2_def)

lemma round_even_error: "\<bar>of_int (round_even y) - y\<bar> \<le> 1 / 2"
proof -
  have "of_int \<lfloor>y\<rfloor> \<le> y" "y < of_int \<lfloor>y\<rfloor> + 1" by linarith+
  then show ?thesis
    by (auto simp add: round_even_def Let_def abs_le_iff)
qed

lemma round_even_nonneg: "0 \<le> y \<Longrightarrow> 0 \<le> round_even y"
  by (auto simp add: round_even_def Let_def)

lemma round_even_nonpos: "y \<le> 0 \<Longrightarrow> round_even y \<le> 0"
proof -
  assume y: "y \<le> 0"
  show ?thesis
  proof (cases "y = 0")
    case True
    then show ?thesis by (simp add: round_even_def)
  next
    case False
    with y have "y < 0" by simp
    then have "\<lfloor>y\<rfloor> \<le> - 1" by (simp add: floor_le_iff)
    then show ?thesis by (auto simp add: round_even_def Let_def)
  qed
qed

lemma rd_nonneg: "0 \<le> x \<Longrightarrow> 0 \<le> rd x"
  by (auto simp add: rd_def Let_def intro!: mult_nonneg_nonneg round_even_nonneg
      divide_nonneg_pos pow2_pos less_imp_le [OF pow2_pos])

lemma rd_nonpos: "x \<le> 0 \<Longrightarrow> rd x \<le> 0"
proof -
  assume x: "x \<le> 0"
  have "round_even (x / pow2 e) \<le> 0" for e
    using x pow2_pos [of e] by (intro round_even_nonpos) (simp add: divide_le_0_iff)
  then show ?thesis
    using pow2_pos by (auto simp add: rd_def Let_def mult_le_0_iff intro: less_imp_le)
qed

lemma rnd_cases:
  obtains (fin) "rnd x = Fin (rd x)"
  | (pinf) "rnd x = PInf" "0 < x"
  | (ninf) "rnd x = NInf" "x < 0"
proof (cases "rd x = 0 \<or> \<not> 1024 \<le> ilog2 \<bar>rd x\<bar>")
  case True
  then have "rnd x = Fin (rd x)" by (auto simp add: rnd_def Let_def)
  then show ?thesis by (rule fin)
next
  case False
  show ?thesis
  proof (cases "0 < rd x")
    case True
    with False have "rnd x = PInf" by (auto simp add: rnd_def Let_def)
    moreover from True rd_nonpos [of x] have "0 < x" by (cases "0 < x") auto
    ultimately show ?thesis by (rule pinf)
  next
    case neg: False
    with False have "rnd x = NInf" by (auto simp add: rnd_def Let_def)
    moreover from neg False rd_nonneg [of x] have "x < 0" by (cases "x < 0") auto
    ultimately show ?thesis by (rule ninf)
  qed
qed

lemma rnd_not_NaN [simp]: "rnd x \<noteq> NaN"
  by (cases x rule: rnd_cases) simp_all

lemma rnd_nonneg: "0 \<le> x \<Longrightarrow> rnd x = PInf \<or> (\<exists>z. rnd x = Fin z \<and> 0 \<le> z)"
  by (cases x rule: rnd_cases) (auto simp add: rd_nonneg)

lemma Number_toFixed_rounded: "rounded_to_2_decimals v (Number_toFixed v 2)"
proof (cases v)
  case (Fin x)
  show ?thesis
  proof (cases "\<bar>x\<bar> < 1000000000000000000000")
    case True
    define n where "n = \<lfloor>\<bar>x\<bar> * 100 + 1 / 2\<rfloor>"
    have "of_int n \<le> \<bar>x\<bar> * 100 + 1 / 2" "\<bar>x\<bar> * 100 + 1 / 2 < of_int n + 1"
      unfolding n_def by linarith+
    then have e: "- (1 / 200) < of_int n / 100 - \<bar>x\<bar>" "of_int n / 100 - \<bar>x\<bar> \<le> 1 / 200"
      by linarith+
    have "Number_toFixed v 2 = lit ((if x < 0 then - 1 else 1) * (of_int n / 100))"
      using True by (simp add: Fin n_def lit_def Let_def)
    with e have "\<exists>m :: int. - (1 / 200) < of_int m / 100 - \<bar>x\<bar> \<and> of_int m / 100 - \<bar>x\<bar> \<le> 1 / 200
                   \<and> Number_toFixed v 2 = lit ((if x < 0 then - 1 else 1) * (of_int m / 100))"
      by blast
    with True show ?thesis
      by (simp only: rounded_to_2_decimals_def Fin number.case if_True)
  next
    case False
    then show ?thesis by (simp add: rounded_to_2_decimals_def Fin)
  qed
qed (simp_all add: rounded_to_2_decimals_def)

text \<open>The rounding to 2 decimals of a value is unique.\<close>

lemma rounded_to_2_decimals_unique:
  assumes "rounded_to_2_decimals v r" and "rounded_to_2_decimals v r'"
  shows "r = r'"
proof (cases v)
  case (Fin x)
  show ?thesis
  proof (cases "\<bar>x\<bar> < 1000000000000000000000")
    case True
    from assms(1) True obtain n :: int where
      n: "- (1 / 200) < of_int n / 100 - \<bar>x\<bar>" "of_int n / 100 - \<bar>x\<bar> \<le> 1 / 200"
      "r = lit ((if x < 0 then - 1 else 1) * (of_int n / 100))"
      unfolding rounded_to_2_decimals_def Fin by auto
    from assms(2) True obtain m :: int where
      m: "- (1 / 200) < of_int m / 100 - \<bar>x\<bar>" "of_int m / 100 - \<bar>x\<bar> \<le> 1 / 200"
      "r' = lit ((if x < 0 then - 1 else 1) * (of_int m / 100))"
      unfolding rounded_to_2_decimals_def Fin by auto
    from n(1,2) m(1,2) have "(of_int n :: rat) < of_int m + 1" "(of_int m :: rat) < of_int n + 1"
      by linarith+
    then have "n < m + 1" "m < n + 1" by linarith+
    then have "n = m" by simp
    then show ?thesis using n(3) m(3) by simp
  next
    case False
    then show ?thesis using assms by (simp add: rounded_to_2_decimals_def Fin)
  qed
next
  case PInf
  then show ?thesis using assms by (simp add: rounded_to_2_decimals_def)
next
  case NInf
  then show ?thesis using assms by (simp add: rounded_to_2_decimals_def)
next
  case NaN
  then show ?thesis using assms by (simp add: rounded_to_2_decimals_def)
qed

lemma pow2_powi: "pow2 e = 2 powi e"
  by (simp add: pow2_def power_int_def field_simps)

lemma pow2_add: "pow2 (a + b) = pow2 a * pow2 b"
  by (simp add: pow2_powi power_int_add)

lemma pow2_nat: "pow2 (int n) = 2 ^ n"
  by (simp add: pow2_def)

lemma pow2_mono: "a \<le> b \<Longrightarrow> pow2 a \<le> pow2 b"
  by (simp add: pow2_powi power_int_increasing)

lemma pow2_less_imp: "pow2 a < pow2 b \<Longrightarrow> a < b"
  using pow2_mono [of b a] by (cases "a < b") auto

lemma ilog2_bounds:
  assumes "0 < x"
  shows "pow2 (ilog2 x) \<le> x" and "x < pow2 (ilog2 x + 1)"
proof -
  obtain p q where pq: "quotient_of x = (p, q)" by (cases "quotient_of x")
  then have q: "0 < q" and x: "x = of_int p / of_int q"
    using quotient_of_denom_pos [OF pq] quotient_of_div [OF pq] by simp_all
  from assms x q have p: "0 < p" by (simp add: zero_less_divide_iff)
  from bitlen_bounds [OF p] have p1: "2 ^ nat (bitlen p - 1) \<le> p" and p2: "p < 2 ^ nat (bitlen p)"
    by simp_all
  from bitlen_bounds [OF q] have q1: "2 ^ nat (bitlen q - 1) \<le> q" and q2: "q < 2 ^ nat (bitlen q)"
    by simp_all
  have bp: "1 \<le> bitlen p" using p bitlen_eq_zero_iff [of p] bitlen_nonneg [of p] by linarith
  have bq: "1 \<le> bitlen q" using q bitlen_eq_zero_iff [of q] bitlen_nonneg [of q] by linarith
  define d where "d = bitlen p - bitlen q"
  have rp1: "pow2 (bitlen p - 1) \<le> of_int p"
  proof -
    have "pow2 (bitlen p - 1) = 2 ^ nat (bitlen p - 1)" using bp by (simp add: pow2_def)
    also have "\<dots> = of_int (2 ^ nat (bitlen p - 1))" by simp
    also have "\<dots> \<le> of_int p" using p1 by (simp only: of_int_le_iff)
    finally show ?thesis .
  qed
  have rp2: "of_int p < pow2 (bitlen p)"
  proof -
    have "(of_int p :: rat) < of_int (2 ^ nat (bitlen p))" using p2 by (simp only: of_int_less_iff)
    also have "\<dots> = pow2 (bitlen p)" using bp by (simp add: pow2_def)
    finally show ?thesis .
  qed
  have rq1: "pow2 (bitlen q - 1) \<le> of_int q"
  proof -
    have "pow2 (bitlen q - 1) = 2 ^ nat (bitlen q - 1)" using bq by (simp add: pow2_def)
    also have "\<dots> = of_int (2 ^ nat (bitlen q - 1))" by simp
    also have "\<dots> \<le> of_int q" using q1 by (simp only: of_int_le_iff)
    finally show ?thesis .
  qed
  have rq2: "of_int q < pow2 (bitlen q)"
  proof -
    have "(of_int q :: rat) < of_int (2 ^ nat (bitlen q))" using q2 by (simp only: of_int_less_iff)
    also have "\<dots> = pow2 (bitlen q)" using bq by (simp add: pow2_def)
    finally show ?thesis .
  qed
  have qpos: "(0 :: rat) < of_int q" using q by simp
  have lo: "pow2 (d - 1) \<le> x"
  proof -
    have "pow2 (d - 1) * of_int q \<le> pow2 (d - 1) * pow2 (bitlen q)"
      using rq2 pow2_pos [of "d - 1"] by (simp add: less_imp_le)
    also have "\<dots> = pow2 (bitlen p - 1)" by (simp add: pow2_add [symmetric] d_def)
    also have "\<dots> \<le> of_int p" by (rule rp1)
    finally show ?thesis using qpos by (simp add: x pos_le_divide_eq)
  qed
  have hi: "x < pow2 (d + 1)"
  proof -
    have "of_int p < pow2 (bitlen p)" by (rule rp2)
    also have "\<dots> = pow2 (d + 1) * pow2 (bitlen q - 1)" by (simp add: pow2_add [symmetric] d_def)
    also have "\<dots> \<le> pow2 (d + 1) * of_int q"
      using rq1 pow2_pos [of "d + 1"] by simp
    finally show ?thesis using qpos by (simp add: x pos_divide_less_eq)
  qed
  have il: "ilog2 x = (if pow2 d \<le> x then d else d - 1)"
    by (simp add: ilog2_def pq d_def Let_def)
  show "pow2 (ilog2 x) \<le> x" using lo by (simp add: il)
  show "x < pow2 (ilog2 x + 1)" using hi by (auto simp add: il)
qed

lemma rd_error:
  assumes "x \<noteq> 0"
  shows "\<bar>rd x - x\<bar> \<le> pow2 (max (ilog2 \<bar>x\<bar> - 52) (- 1074)) / 2"
proof -
  define e where "e = max (ilog2 \<bar>x\<bar> - 52) (- 1074)"
  have r: "rd x = of_int (round_even (x / pow2 e)) * pow2 e"
    using assms by (simp add: rd_def e_def Let_def)
  have "rd x - x = (of_int (round_even (x / pow2 e)) - x / pow2 e) * pow2 e"
    using pow2_pos [of e] by (simp add: r field_simps)
  then have "\<bar>rd x - x\<bar> = \<bar>of_int (round_even (x / pow2 e)) - x / pow2 e\<bar> * pow2 e"
    using pow2_pos [of e] by (simp add: abs_mult)
  also have "\<dots> \<le> (1 / 2) * pow2 e"
    using round_even_error [of "x / pow2 e"] pow2_pos [of e]
    by (intro mult_right_mono) simp_all
  finally show ?thesis by (simp add: e_def)
qed


lemma rd_zero: "rd 0 = 0"
  by (simp add: rd_def)

lemma rd_abs_error: "\<bar>rd z - z\<bar> \<le> \<bar>z\<bar> * pow2 (- 53) + pow2 (- 1075)"
proof (cases "z = 0")
  case True
  then show ?thesis using pow2_pos [of "- 1075"] by (simp add: rd_zero)
next
  case False
  then have pos: "0 < \<bar>z\<bar>" by simp
  have e: "\<bar>rd z - z\<bar> \<le> pow2 (max (ilog2 \<bar>z\<bar> - 52) (- 1074)) / 2"
    using rd_error [OF False] .
  have half: "pow2 (a - 1) = pow2 a / 2" for a
    using pow2_add [of a "- 1"] by (simp add: pow2_def)
  show ?thesis
  proof (cases "- 1074 \<le> ilog2 \<bar>z\<bar> - 52")
    case True
    then have "max (ilog2 \<bar>z\<bar> - 52) (- 1074) = ilog2 \<bar>z\<bar> - 52" by linarith
    then have "pow2 (max (ilog2 \<bar>z\<bar> - 52) (- 1074)) / 2 = pow2 (ilog2 \<bar>z\<bar> - 52 - 1)"
      by (simp only: half)
    also have "\<dots> = pow2 (ilog2 \<bar>z\<bar>) * pow2 (- 53)"
      using pow2_add [of "ilog2 \<bar>z\<bar>" "- 53"] by simp
    also have "\<dots> \<le> \<bar>z\<bar> * pow2 (- 53)"
      using ilog2_bounds(1) [OF pos] pow2_pos [of "- 53"] by (simp add: mult_right_mono)
    finally show ?thesis using e pow2_pos [of "- 1075"] by linarith
  next
    case False
    then have "max (ilog2 \<bar>z\<bar> - 52) (- 1074) = - 1074" by linarith
    then have "pow2 (max (ilog2 \<bar>z\<bar> - 52) (- 1074)) / 2 = pow2 (- 1074 - 1)"
      by (simp only: half)
    then have "\<bar>rd z - z\<bar> \<le> pow2 (- 1075)" using e by simp
    moreover have "0 \<le> \<bar>z\<bar> * pow2 (- 53)" using pow2_pos [of "- 53"] by simp
    ultimately show ?thesis by linarith
  qed
qed


lemma pow2_double: "pow2 a + pow2 a = pow2 (a + 1)"
  using pow2_add [of a 1] by (simp add: pow2_def)

lemma pow2_half: "pow2 a / 2 = pow2 (a - 1)"
  using pow2_add [of a "- 1"] by (simp add: pow2_def)

lemma pow2_m53: "pow2 (- 53) = 1 / 9007199254740992" and pow2_m50: "pow2 (- 50) = 1 / 1125899906842624"
  by code_simp+

lemma pow2_consts:
  "pow2 1000 + pow2 1000 \<le> pow2 1023"
  "pow2 (- 53) \<le> pow2 (- 50) / 2"
  "(3602879701896397 / 36028797018963968 - 1 / 10) + (3602879701896397 / 36028797018963968) * pow2 (- 53) \<le> pow2 (- 50) / 2"
  "(3602879701896397 / 72057594037927936 - 1 / 20) + (3602879701896397 / 72057594037927936) * pow2 (- 53) \<le> pow2 (- 50) / 2"
  "pow2 (- 1075) + pow2 (- 1075) \<le> pow2 (- 1000) / 2"
  "0 \<le> (3602879701896397 / 36028797018963968 - 1 / 10 :: rat)"
  "0 \<le> (3602879701896397 / 72057594037927936 - 1 / 20 :: rat)"
proof -
  show "pow2 1000 + pow2 1000 \<le> pow2 1023"
    unfolding pow2_double by (rule pow2_mono) simp
  show "pow2 (- 53) \<le> pow2 (- 50) / 2"
    unfolding pow2_half by (rule pow2_mono) simp
  show "pow2 (- 1075) + pow2 (- 1075) \<le> pow2 (- 1000) / 2"
    unfolding pow2_half pow2_double by (rule pow2_mono) simp
qed (simp_all add: pow2_m53 pow2_m50)

lemma pow2_1024: "pow2 1023 + (pow2 1023 * (1 / 2) + 1) < pow2 1024"
proof -
  have "(1 :: rat) < pow2 1" by (simp add: pow2_def)
  also have "\<dots> \<le> pow2 1022" by (rule pow2_mono) simp
  finally have "1 < pow2 1023 / 2" unfolding pow2_half by simp
  moreover have "pow2 1024 = pow2 1023 + pow2 1023" unfolding pow2_double by simp
  ultimately show ?thesis by simp
qed

lemma small: "pow2 (- 53) \<le> 1 / 2" "pow2 (- 1075) \<le> 1"
proof -
  show "pow2 (- 53) \<le> 1 / 2" by (simp add: pow2_m53)
  have "pow2 (- 1075) \<le> pow2 0" by (rule pow2_mono) simp
  then show "pow2 (- 1075) \<le> 1" by (simp add: pow2_def)
qed

lemma rnd_Fin:
  assumes "\<bar>z\<bar> \<le> pow2 1023"
  shows "rnd z = Fin (rd z)"
proof (cases "rd z = 0")
  case True
  then show ?thesis by (simp add: rnd_def)
next
  case False
  have "\<bar>rd z\<bar> \<le> \<bar>z\<bar> + \<bar>rd z - z\<bar>" by linarith
  also have "\<dots> \<le> \<bar>z\<bar> + (\<bar>z\<bar> * pow2 (- 53) + pow2 (- 1075))"
    using rd_abs_error [of z] by linarith
  also have "\<dots> \<le> \<bar>z\<bar> + (\<bar>z\<bar> * (1 / 2) + 1)"
  proof -
    have "\<bar>z\<bar> * pow2 (- 53) \<le> \<bar>z\<bar> * (1 / 2)"
      using small(1) by (rule mult_left_mono) simp
    then show ?thesis using small(2) by linarith
  qed
  also have "\<dots> \<le> pow2 1023 + (pow2 1023 * (1 / 2) + 1)"
    using assms by simp
  also have "\<dots> < pow2 1024" by (rule pow2_1024)
  finally have lt: "\<bar>rd z\<bar> < pow2 1024" .
  have "\<not> 1024 \<le> ilog2 \<bar>rd z\<bar>"
  proof
    assume "1024 \<le> ilog2 \<bar>rd z\<bar>"
    then have "pow2 1024 \<le> pow2 (ilog2 \<bar>rd z\<bar>)" by (rule pow2_mono)
    also have "\<dots> \<le> \<bar>rd z\<bar>" using ilog2_bounds(1) [of "\<bar>rd z\<bar>"] False by simp
    finally show False using lt by simp
  qed
  then show ?thesis using False by (simp add: rnd_def Let_def)
qed

subsection \<open>Array reads and the derived metrics\<close>

lemma elem_at_last: "xs \<noteq> [] \<Longrightarrow> elem_at xs (int (length xs) - 1) = Some (last xs)"
  by (cases xs rule: rev_cases) (simp_all add: elem_at_def)

lemma elem_at_Nil: "elem_at [] i = None"
  by (simp add: elem_at_def)

lemma elem_at_last_opt:
  "elem_at xs (int (length xs) - 1) = (if xs = [] then None else Some (last xs))"
  by (simp add: elem_at_last elem_at_Nil)

lemma nullish_last:
  "nullish (elem_at xs (int (length xs) - 1)) d = (if xs = [] then d else last xs)"
  by (simp add: elem_at_last_opt nullish_def)

lemma or_else_last:
  "or_else (elem_at xs (int (length xs) - 1)) d =
     (if xs = [] \<or> last xs = Fin 0 \<or> last xs = NaN then d else last xs)"
  by (simp add: elem_at_last_opt or_else_def)

lemma rounded_to_2_decimalsI:
  assumes "\<bar>x\<bar> < 1000000000000000000000"
    and "- (1 / 200) < of_int n / 100 - \<bar>x\<bar>" and "of_int n / 100 - \<bar>x\<bar> \<le> 1 / 200"
    and "r = lit ((if x < 0 then - 1 else 1) * (of_int n / 100))"
  shows "rounded_to_2_decimals (Fin x) r"
proof -
  from assms(2,3,4) have "\<exists>m :: int. - (1 / 200) < of_int m / 100 - \<bar>x\<bar>
      \<and> of_int m / 100 - \<bar>x\<bar> \<le> 1 / 200 \<and> r = lit ((if x < 0 then - 1 else 1) * (of_int m / 100))"
    by blast
  with assms(1) show ?thesis
    by (simp only: rounded_to_2_decimals_def number.case if_True)
qed

lemma metrics_some:
  assumes "fd \<noteq> []"
  shows "metrics (Some fd) =
     (let cpuForecast = map (\<lambda>v. Number_toFixed v 2) (take 7 fd);
          cpuCurrent = or_else (elem_at cpuForecast 0) (Fin 0);
          storageCurrent =
            Number_toFixed (js_mul (js_mul cpuCurrent (lit (1 / 100))) (lit (25 / 10))) 2;
          storageForecast =
            map (\<lambda>cpu. Number_toFixed (js_mul (js_mul cpu (lit (1 / 100))) (lit (25 / 10))) 2)
              cpuForecast;
          netCurrent = Number_toFixed (js_mul cpuCurrent (Fin 10)) 2;
          netForecast = map (\<lambda>cpu. Number_toFixed (js_mul cpu (Fin 10)) 2) cpuForecast
      in
       [\<lparr>id' = ''cpu'', title = ''CPU Demand'', unit = ''%'', current = cpuCurrent,
         forecast = cpuForecast,
         pie = [\<lparr>pie_name = ''Used'', pie_value = cpuCurrent\<rparr>,
                \<lparr>pie_name = ''Remaining'',
                  pie_value = Math_max (Fin 0) (js_sub (Fin 100) cpuCurrent)\<rparr>]\<rparr>,
        \<lparr>id' = ''storage'', title = ''Storage Usage'', unit = ''TB'',
         current = storageCurrent, forecast = storageForecast,
         pie = storage_pie storageForecast storageCurrent\<rparr>,
        \<lparr>id' = ''network'', title = ''Network Bandwidth'', unit = ''Mbps'',
         current = netCurrent, forecast = netForecast,
         pie = network_pie netForecast netCurrent\<rparr>])"
  using assms by (simp only: metrics_def option.sel length_0_conv option.distinct simp_thms if_False)

lemma metrics_forecasts:
  assumes "fd \<noteq> []"
  shows "\<exists>c s n. metrics (Some fd) = [c, s, n]
     \<and> id' c = ''cpu'' \<and> id' s = ''storage'' \<and> id' n = ''network''
     \<and> metric.forecast c = map (\<lambda>v. Number_toFixed v 2) (take 7 fd)
     \<and> metric.forecast s =
         map (\<lambda>cpu. Number_toFixed (js_mul (js_mul cpu (lit (1 / 100))) (lit (25 / 10))) 2)
           (metric.forecast c)
     \<and> metric.forecast n = map (\<lambda>cpu. Number_toFixed (js_mul cpu (Fin 10)) 2) (metric.forecast c)"
  unfolding metrics_some [OF assms] Let_def by simp

lemma metrics_finds:
  assumes "fd \<noteq> []"
  shows "\<exists>c s. find (\<lambda>m. id' m = ''cpu'') (metrics (Some fd)) = Some c
     \<and> find (\<lambda>m. id' m = ''storage'') (metrics (Some fd)) = Some s
     \<and> metric.forecast c = map (\<lambda>v. Number_toFixed v 2) (take 7 fd)
     \<and> metric.forecast s =
         map (\<lambda>cpu. Number_toFixed (js_mul (js_mul cpu (lit (1 / 100))) (lit (25 / 10))) 2)
           (metric.forecast c)"
  unfolding metrics_some [OF assms] Let_def by simp

lemma find_metrics_cpu: "\<exists>c. find (\<lambda>m. id' m = ''cpu'') (metrics fd) = Some c"
  by (simp add: metrics_def Let_def)

lemma find_metrics_storage: "\<exists>s. find (\<lambda>m. id' m = ''storage'') (metrics fd) = Some s"
  by (simp add: metrics_def Let_def)

subsection \<open>Capacity-risk classification\<close>

lemma lit_tenth: "lit (1 / 10) = Fin (3602879701896397 / 36028797018963968)"
  by code_simp

lemma neg_lit_twentieth: "js_neg (lit (5 / 100)) = Fin (- (3602879701896397 / 72057594037927936))"
  by code_simp

lemma rnd_err:
  assumes "\<bar>z\<bar> \<le> pow2 1023"
  shows "\<exists>Z. rnd z = Fin Z \<and> \<bar>Z - z\<bar> \<le> \<bar>z\<bar> * pow2 (- 53) + pow2 (- 1075)"
  using rnd_Fin [OF assms] rd_abs_error [of z] by blast

lemma js_ge_Fin: "js_ge (Fin a) (Fin b) = (b \<le> a)"
  by (auto simp add: js_ge_def js_le_def)

lemma js_lt_Fin: "js_lt (Fin a) (Fin b) = (a < b)"
  by simp

lemma js_sub_Fin: "js_sub (Fin a) (Fin b) = rnd (a - b)"
  by (simp add: js_sub_def)

lemma getRisk_thresholds:
  fixes f c :: rat
  assumes bf: "\<bar>f\<bar> \<le> pow2 1000" and bc: "\<bar>c\<bar> \<le> pow2 1000"
  obtains G T U where
    "js_sub (Fin c) (Fin f) = Fin G"
    "js_mul (lit (1 / 10)) (Fin f) = Fin T"
    "js_mul (js_neg (lit (5 / 100))) (Fin f) = Fin U"
    "\<bar>G - (c - f)\<bar> \<le> \<bar>c - f\<bar> * pow2 (- 50) / 2 + pow2 (- 1000) / 4"
    "\<bar>T - f / 10\<bar> \<le> \<bar>f\<bar> * pow2 (- 50) / 2 + pow2 (- 1000) / 4"
    "\<bar>U - (- f / 20)\<bar> \<le> \<bar>f\<bar> * pow2 (- 50) / 2 + pow2 (- 1000) / 4"
proof -
  define p where "p = pow2 (- 53)"
  define q where "q = pow2 (- 1075)"
  define P where "P = pow2 (- 50)"
  define Q where "Q = pow2 (- 1000)"
  define k where "k = (3602879701896397 / 36028797018963968 :: rat)"
  define l where "l = (3602879701896397 / 72057594037927936 :: rat)"
  have cs: "p \<le> P / 2" "(k - 1 / 10) + k * p \<le> P / 2" "(l - 1 / 20) + l * p \<le> P / 2"
    "q + q \<le> Q / 2" "0 \<le> k - 1 / 10" "0 \<le> l - 1 / 20"
    unfolding p_def q_def P_def Q_def k_def l_def using pow2_consts by simp_all
  have kl: "0 \<le> k" "k \<le> 1" "0 \<le> l" "l \<le> 1" unfolding k_def l_def by simp_all
  have q0: "0 < q" unfolding q_def by (rule pow2_pos)
  have p0: "0 < p" unfolding p_def by (rule pow2_pos)
  have big: "pow2 1000 + pow2 1000 \<le> pow2 1023" using pow2_consts(1) .
  have pw: "0 < pow2 1000" by (rule pow2_pos)
  have "\<bar>c - f\<bar> \<le> pow2 1023" using bf bc big by linarith
  from rnd_err [OF this] obtain G where
    G: "rnd (c - f) = Fin G" "\<bar>G - (c - f)\<bar> \<le> \<bar>c - f\<bar> * p + q"
    unfolding p_def q_def by blast
  have kf: "\<bar>k * f\<bar> = k * \<bar>f\<bar>" using kl by (simp add: abs_mult)
  have lf: "\<bar>- l * f\<bar> = l * \<bar>f\<bar>" using kl by (simp add: abs_mult)
  have "k * \<bar>f\<bar> \<le> 1 * \<bar>f\<bar>" using kl by (intro mult_right_mono) simp_all
  then have "\<bar>k * f\<bar> \<le> pow2 1023" using kf bf big pw by linarith
  from rnd_err [OF this] obtain T where
    T: "rnd (k * f) = Fin T" "\<bar>T - k * f\<bar> \<le> \<bar>k * f\<bar> * p + q"
    unfolding p_def q_def by blast
  have "l * \<bar>f\<bar> \<le> 1 * \<bar>f\<bar>" using kl by (intro mult_right_mono) simp_all
  then have "\<bar>- l * f\<bar> \<le> pow2 1023" using lf bf big pw by linarith
  from rnd_err [OF this] obtain U where
    U: "rnd (- l * f) = Fin U" "\<bar>U - (- l * f)\<bar> \<le> \<bar>- l * f\<bar> * p + q"
    unfolding p_def q_def by blast
  have 1: "js_sub (Fin c) (Fin f) = Fin G" using G(1) by (simp add: js_sub_Fin)
  have 2: "js_mul (lit (1 / 10)) (Fin f) = Fin T"
    unfolding lit_tenth using T(1) by (simp add: k_def)
  have 3: "js_mul (js_neg (lit (5 / 100))) (Fin f) = Fin U"
    unfolding neg_lit_twentieth using U(1) by (simp add: l_def)
  have gp: "\<bar>c - f\<bar> * p \<le> \<bar>c - f\<bar> * (P / 2)"
    using cs(1) by (rule mult_left_mono) simp
  have 4: "\<bar>G - (c - f)\<bar> \<le> \<bar>c - f\<bar> * P / 2 + Q / 4"
    using G(2) gp cs(4) q0 by simp
  have 5: "\<bar>T - f / 10\<bar> \<le> \<bar>f\<bar> * P / 2 + Q / 4"
  proof -
    define A where "A = (k * p) * \<bar>f\<bar>"
    define B where "B = (k - 1 / 10) * \<bar>f\<bar>"
    define C where "C = (P / 2) * \<bar>f\<bar>"
    have "k * f - f / 10 = (k - 1 / 10) * f" by (simp add: algebra_simps)
    then have x2: "\<bar>k * f - f / 10\<bar> = B"
      unfolding B_def using cs(5) by (simp only: abs_mult abs_of_nonneg)
    have "\<bar>k * f\<bar> * p = A" unfolding A_def kf by simp
    then have x1: "\<bar>T - k * f\<bar> \<le> A + q" using T(2) by simp
    have "((k - 1 / 10) + k * p) * \<bar>f\<bar> \<le> (P / 2) * \<bar>f\<bar>"
      using cs(2) by (rule mult_right_mono) simp
    then have x3: "B + A \<le> C" unfolding A_def B_def C_def by (simp only: distrib_right)
    have "\<bar>T - f / 10\<bar> \<le> C + Q / 4" using x1 x2 x3 cs(4) q0 by linarith
    then show ?thesis unfolding C_def by (simp add: mult.commute)
  qed
  have 6: "\<bar>U - (- f / 20)\<bar> \<le> \<bar>f\<bar> * P / 2 + Q / 4"
  proof -
    define A where "A = (l * p) * \<bar>f\<bar>"
    define B where "B = (l - 1 / 20) * \<bar>f\<bar>"
    define C where "C = (P / 2) * \<bar>f\<bar>"
    have "- l * f - (- f / 20) = - ((l - 1 / 20) * f)" by (simp add: algebra_simps)
    then have x2: "\<bar>- l * f - (- f / 20)\<bar> = B"
      unfolding B_def using cs(6) by (simp only: abs_minus_cancel abs_mult abs_of_nonneg)
    have "\<bar>- l * f\<bar> * p = A" unfolding A_def lf by simp
    then have x1: "\<bar>U - (- l * f)\<bar> \<le> A + q" using U(2) by simp
    have "((l - 1 / 20) + l * p) * \<bar>f\<bar> \<le> (P / 2) * \<bar>f\<bar>"
      using cs(3) by (rule mult_right_mono) simp
    then have x3: "B + A \<le> C" unfolding A_def B_def C_def by (simp only: distrib_right)
    have "\<bar>U - (- f / 20)\<bar> \<le> C + Q / 4" using x1 x2 x3 cs(4) q0 by linarith
    then show ?thesis unfolding C_def by (simp add: mult.commute)
  qed
  show thesis
    using that [OF 1 2 3] 4 5 6 unfolding P_def Q_def by blast
qed

lemma getRisk_margin:
  fixes f c :: rat
  assumes bf: "\<bar>f\<bar> \<le> pow2 1000" and bc: "\<bar>c\<bar> \<le> pow2 1000"
  defines "m \<equiv> (\<bar>c - f\<bar> + \<bar>f\<bar>) * pow2 (- 50) + pow2 (- 1000)"
  shows "f / 10 + m \<le> c - f \<Longrightarrow> getRisk (Fin f) (Fin c) = ''Sufficient''"
    and "c - f \<le> f / 10 - m \<Longrightarrow> c - f \<le> - f / 20 - m \<Longrightarrow> getRisk (Fin f) (Fin c) = ''Shortage''"
    and "c - f \<le> f / 10 - m \<Longrightarrow> - f / 20 + m \<le> c - f \<Longrightarrow> getRisk (Fin f) (Fin c) = ''Over / Slight risk''"
proof -
  from getRisk_thresholds [OF bf bc] obtain G T U where
    ev: "js_sub (Fin c) (Fin f) = Fin G"
    "js_mul (lit (1 / 10)) (Fin f) = Fin T"
    "js_mul (js_neg (lit (5 / 100))) (Fin f) = Fin U"
    and er: "\<bar>G - (c - f)\<bar> \<le> \<bar>c - f\<bar> * pow2 (- 50) / 2 + pow2 (- 1000) / 4"
    "\<bar>T - f / 10\<bar> \<le> \<bar>f\<bar> * pow2 (- 50) / 2 + pow2 (- 1000) / 4"
    "\<bar>U - (- f / 20)\<bar> \<le> \<bar>f\<bar> * pow2 (- 50) / 2 + pow2 (- 1000) / 4"
    by blast
  have r: "getRisk (Fin f) (Fin c) =
      (if T \<le> G then ''Sufficient'' else if G < U then ''Shortage'' else ''Over / Slight risk'')"
    by (simp only: getRisk_def Let_def ev js_ge_Fin js_lt_Fin)
  define P where "P = pow2 (- 50)"
  define Q where "Q = pow2 (- 1000)"
  have Q0: "0 < Q" unfolding Q_def by (rule pow2_pos)
  have P0: "0 < P" unfolding P_def by (rule pow2_pos)
  define a where "a = \<bar>c - f\<bar> * P"
  define b where "b = \<bar>f\<bar> * P"
  have ab: "0 \<le> a" "0 \<le> b" using P0 by (simp_all add: a_def b_def)
  have m: "m = a + b + Q" by (simp add: m_def a_def b_def P_def Q_def algebra_simps)
  have er': "\<bar>G - (c - f)\<bar> \<le> a / 2 + Q / 4" "\<bar>T - f / 10\<bar> \<le> b / 2 + Q / 4"
    "\<bar>U - (- f / 20)\<bar> \<le> b / 2 + Q / 4"
    using er by (simp_all add: a_def b_def P_def Q_def)
  {
    assume "f / 10 + m \<le> c - f"
    then have "T \<le> G" using er' ab Q0 unfolding m by linarith
    then show "getRisk (Fin f) (Fin c) = ''Sufficient''" by (simp add: r)
  next
    assume "c - f \<le> f / 10 - m" "c - f \<le> - f / 20 - m"
    then have "\<not> T \<le> G" "G < U" using er' ab Q0 unfolding m by linarith+
    then show "getRisk (Fin f) (Fin c) = ''Shortage''" by (simp add: r)
  next
    assume "c - f \<le> f / 10 - m" "- f / 20 + m \<le> c - f"
    then have "\<not> T \<le> G" "\<not> G < U" using er' ab Q0 unfolding m by linarith+
    then show "getRisk (Fin f) (Fin c) = ''Over / Slight risk''" by (simp add: r)
  }
qed

lemma pow2_1000_big: "\<bar>x\<bar> \<le> 1000000 \<Longrightarrow> \<bar>x\<bar> \<le> pow2 1000"
proof -
  assume "\<bar>x\<bar> \<le> 1000000"
  also have "(1000000 :: rat) \<le> pow2 20" by (simp add: pow2_def)
  also have "\<dots> \<le> pow2 1000" by (rule pow2_mono) simp
  finally show ?thesis .
qed

lemma pow2_m1000_small: "pow2 (- 1000) \<le> 1 / 1125899906842624"
proof -
  have "pow2 (- 1000) \<le> pow2 (- 50)" by (rule pow2_mono) simp
  then show ?thesis by (simp add: pow2_m50)
qed

text \<open>
  Claim C1, as the code has it.  The status is decided on doubles: the gap
  \<open>capacity - forecast\<close> and the two thresholds \<open>0.1 * forecast\<close> and \<open>-0.05 * forecast\<close>
  are each rounded to the nearest double before they are compared, the test for
  "Sufficient" first.  The three examples of the specification hold.  For finite inputs
  of magnitude up to \<open>2^1000\<close> the status is the one of the exact rule whenever the exact
  gap is at least the margin \<open>(|c - f| + |f|) * 2^-50 + 2^-1000\<close> away from both exact
  thresholds \<open>f / 10\<close> and \<open>- f / 20\<close>.
\<close>

theorem getRisk_classification:
  "getRisk x y =
     (if js_ge (js_sub y x) (js_mul (lit (1 / 10)) x) then ''Sufficient''
      else if js_lt (js_sub y x) (js_mul (js_neg (lit (5 / 100))) x) then ''Shortage''
      else ''Over / Slight risk'')
   \<and> getRisk (Fin 100) (Fin 111) = ''Sufficient''
   \<and> getRisk (Fin 100) (Fin 94) = ''Shortage''
   \<and> getRisk (Fin 100) (Fin 100) = ''Over / Slight risk''
   \<and> (\<bar>f\<bar> \<le> pow2 1000 \<and> \<bar>c\<bar> \<le> pow2 1000 \<longrightarrow>
        (f / 10 + ((\<bar>c - f\<bar> + \<bar>f\<bar>) * pow2 (- 50) + pow2 (- 1000)) \<le> c - f
           \<longrightarrow> getRisk (Fin f) (Fin c) = ''Sufficient'')
      \<and> (c - f \<le> f / 10 - ((\<bar>c - f\<bar> + \<bar>f\<bar>) * pow2 (- 50) + pow2 (- 1000))
         \<and> c - f \<le> - f / 20 - ((\<bar>c - f\<bar> + \<bar>f\<bar>) * pow2 (- 50) + pow2 (- 1000))
           \<longrightarrow> getRisk (Fin f) (Fin c) = ''Shortage'')
      \<and> (c - f \<le> f / 10 - ((\<bar>c - f\<bar> + \<bar>f\<bar>) * pow2 (- 50) + pow2 (- 1000))
         \<and> - f / 20 + ((\<bar>c - f\<bar> + \<bar>f\<bar>) * pow2 (- 50) + pow2 (- 1000)) \<le> c - f
           \<longrightarrow> getRisk (Fin f) (Fin c) = ''Over / Slight risk''))"
proof (intro conjI)
  show "getRisk x y =
     (if js_ge (js_sub y x) (js_mul (lit (1 / 10)) x) then ''Sufficient''
      else if js_lt (js_sub y x) (js_mul (js_neg (lit (5 / 100))) x) then ''Shortage''
      else ''Over / Slight risk'')"
    by (simp only: getRisk_def Let_def)
  show "getRisk (Fin 100) (Fin 111) = ''Sufficient''" by code_simp
  show "getRisk (Fin 100) (Fin 94) = ''Shortage''" by code_simp
  show "getRisk (Fin 100) (Fin 100) = ''Over / Slight risk''" by code_simp
  show "\<bar>f\<bar> \<le> pow2 1000 \<and> \<bar>c\<bar> \<le> pow2 1000 \<longrightarrow>
        (f / 10 + ((\<bar>c - f\<bar> + \<bar>f\<bar>) * pow2 (- 50) + pow2 (- 1000)) \<le> c - f
           \<longrightarrow> getRisk (Fin f) (Fin c) = ''Sufficient'')
      \<and> (c - f \<le> f / 10 - ((\<bar>c - f\<bar> + \<bar>f\<bar>) * pow2 (- 50) + pow2 (- 1000))
         \<and> c - f \<le> - f / 20 - ((\<bar>c - f\<bar> + \<bar>f\<bar>) * pow2 (- 50) + pow2 (- 1000))
           \<longrightarrow> getRisk (Fin f) (Fin c) = ''Shortage'')
      \<and> (c - f \<le> f / 10 - ((\<bar>c - f\<bar> + \<bar>f\<bar>) * pow2 (- 50) + pow2 (- 1000))
         \<and> - f / 20 + ((\<bar>c - f\<bar> + \<bar>f\<bar>) * pow2 (- 50) + pow2 (- 1000)) \<le> c - f
           \<longrightarrow> getRisk (Fin f) (Fin c) = ''Over / Slight risk'')"
    using getRisk_margin [of f c] by blast
qed

text \<open>
  The rule of the claim read on the exact values fails.  With the forecast 28.2 and the
  capacity 26.79 the exact gap is below \<open>-0.05\<close> times the forecast, which the rule calls
  "Shortage"; the code returns "Over / Slight risk".
\<close>

theorem getRisk_real_counterexample:
  "getRisk (lit (282 / 10)) (lit (2679 / 100)) = ''Over / Slight risk''
   \<and> val (lit (2679 / 100)) - val (lit (282 / 10)) < - (5 / 100) * val (lit (282 / 10))
   \<and> \<not> (1 / 10) * val (lit (282 / 10)) \<le> val (lit (2679 / 100)) - val (lit (282 / 10))"
  by code_simp

theorem getRisk_classification_witness:
  "\<bar>100 :: rat\<bar> \<le> pow2 1000 \<and> \<bar>111 :: rat\<bar> \<le> pow2 1000 \<and> \<bar>94 :: rat\<bar> \<le> pow2 1000
   \<and> (100 :: rat) / 10 + ((\<bar>111 - 100\<bar> + \<bar>100\<bar>) * pow2 (- 50) + pow2 (- 1000)) \<le> 111 - 100
   \<and> getRisk (Fin 100) (Fin 111) = ''Sufficient''
   \<and> (94 :: rat) - 100 \<le> 100 / 10 - ((\<bar>94 - 100\<bar> + \<bar>100\<bar>) * pow2 (- 50) + pow2 (- 1000))
   \<and> (94 :: rat) - 100 \<le> - 100 / 20 - ((\<bar>94 - 100\<bar> + \<bar>100\<bar>) * pow2 (- 50) + pow2 (- 1000))
   \<and> getRisk (Fin 100) (Fin 94) = ''Shortage''
   \<and> (100 :: rat) - 100 \<le> 100 / 10 - ((\<bar>100 - 100\<bar> + \<bar>100\<bar>) * pow2 (- 50) + pow2 (- 1000))
   \<and> - (100 :: rat) / 20 + ((\<bar>100 - 100\<bar> + \<bar>100\<bar>) * pow2 (- 50) + pow2 (- 1000)) \<le> 100 - 100
   \<and> getRisk (Fin 100) (Fin 100) = ''Over / Slight risk''"
proof -
  have b: "\<bar>100 :: rat\<bar> \<le> pow2 1000" "\<bar>111 :: rat\<bar> \<le> pow2 1000" "\<bar>94 :: rat\<bar> \<le> pow2 1000"
    by (rule pow2_1000_big, simp)+
  have q: "pow2 (- 1000) \<le> 1 / 1125899906842624" by (rule pow2_m1000_small)
  have q0: "0 < pow2 (- 1000)" by (rule pow2_pos)
  have h1: "(100 :: rat) / 10 + ((\<bar>111 - 100\<bar> + \<bar>100\<bar>) * pow2 (- 50) + pow2 (- 1000)) \<le> 111 - 100"
    using q by (simp add: pow2_m50)
  have h2: "(94 :: rat) - 100 \<le> 100 / 10 - ((\<bar>94 - 100\<bar> + \<bar>100\<bar>) * pow2 (- 50) + pow2 (- 1000))"
    "(94 :: rat) - 100 \<le> - 100 / 20 - ((\<bar>94 - 100\<bar> + \<bar>100\<bar>) * pow2 (- 50) + pow2 (- 1000))"
    using q by (simp_all add: pow2_m50)
  have h3: "(100 :: rat) - 100 \<le> 100 / 10 - ((\<bar>100 - 100\<bar> + \<bar>100\<bar>) * pow2 (- 50) + pow2 (- 1000))"
    "- (100 :: rat) / 20 + ((\<bar>100 - 100\<bar> + \<bar>100\<bar>) * pow2 (- 50) + pow2 (- 1000)) \<le> 100 - 100"
    using q by (simp_all add: pow2_m50)
  have r1: "getRisk (Fin 100) (Fin 111) = ''Sufficient''"
    using getRisk_classification [of _ _ 100 111] b h1 by blast
  have r2: "getRisk (Fin 100) (Fin 94) = ''Shortage''"
    using getRisk_classification [of _ _ 100 94] b h2 by blast
  have r3: "getRisk (Fin 100) (Fin 100) = ''Over / Slight risk''"
    using getRisk_classification [of _ _ 100 100] b h3 by blast
  from b h1 h2 h3 r1 r2 r3 show ?thesis by blast
qed

subsection \<open>Forecast-to-metric derivation\<close>

text \<open>
  Claim C2, as the code has it.  For every forecast sequence of at least 7 numbers the
  derivation yields the three metrics CPU, storage and network, each with a forecast of
  exactly 7 entries.  The CPU entries are the first 7 inputs rounded to 2 decimals.  At
  every position the storage entry is the product \<open>cpu * 0.01 * 2.5\<close>, computed on doubles
  from the left, rounded to 2 decimals, and the network entry is the double product
  \<open>cpu * 10\<close> rounded to 2 decimals.
\<close>

theorem derived_scaling:
  assumes "length fd \<ge> 7"
  shows "\<exists>c s n. metrics (Some fd) = [c, s, n]
           \<and> id' c = ''cpu'' \<and> id' s = ''storage'' \<and> id' n = ''network''
           \<and> length (metric.forecast c) = 7
           \<and> length (metric.forecast s) = 7
           \<and> length (metric.forecast n) = 7
           \<and> metric.forecast c = map (\<lambda>v. Number_toFixed v 2) (take 7 fd)
           \<and> metric.forecast s =
               map (\<lambda>cpu. Number_toFixed (js_mul (js_mul cpu (lit (1 / 100))) (lit (25 / 10))) 2)
                 (metric.forecast c)
           \<and> metric.forecast n =
               map (\<lambda>cpu. Number_toFixed (js_mul cpu (Fin 10)) 2) (metric.forecast c)
           \<and> (\<forall>i < 7.
                 rounded_to_2_decimals (fd ! i) (metric.forecast c ! i)
               \<and> rounded_to_2_decimals
                   (js_mul (js_mul (metric.forecast c ! i) (lit (1 / 100))) (lit (25 / 10)))
                   (metric.forecast s ! i)
               \<and> rounded_to_2_decimals (js_mul (metric.forecast c ! i) (Fin 10))
                   (metric.forecast n ! i))"
proof -
  from assms have ne: "fd \<noteq> []" by auto
  from metrics_forecasts [OF ne] obtain c s n where
    m: "metrics (Some fd) = [c, s, n]"
    and ids: "id' c = ''cpu''" "id' s = ''storage''" "id' n = ''network''"
    and fc: "metric.forecast c = map (\<lambda>v. Number_toFixed v 2) (take 7 fd)"
    and fs: "metric.forecast s =
         map (\<lambda>cpu. Number_toFixed (js_mul (js_mul cpu (lit (1 / 100))) (lit (25 / 10))) 2)
           (metric.forecast c)"
    and fn: "metric.forecast n = map (\<lambda>cpu. Number_toFixed (js_mul cpu (Fin 10)) 2) (metric.forecast c)"
    by blast
  have lc: "length (metric.forecast c) = 7" using assms by (simp add: fc)
  have ls: "length (metric.forecast s) = 7" unfolding fs using lc by simp
  have ln: "length (metric.forecast n) = 7" unfolding fn using lc by simp
  have r: "rounded_to_2_decimals (fd ! i) (metric.forecast c ! i)
           \<and> rounded_to_2_decimals
               (js_mul (js_mul (metric.forecast c ! i) (lit (1 / 100))) (lit (25 / 10)))
               (metric.forecast s ! i)
           \<and> rounded_to_2_decimals (js_mul (metric.forecast c ! i) (Fin 10))
               (metric.forecast n ! i)" if "i < 7" for i
  proof -
    have "metric.forecast c ! i = Number_toFixed (fd ! i) 2"
      using that assms by (simp add: fc)
    moreover have "metric.forecast s ! i =
        Number_toFixed (js_mul (js_mul (metric.forecast c ! i) (lit (1 / 100))) (lit (25 / 10))) 2"
      using that lc by (simp add: fs)
    moreover have "metric.forecast n ! i = Number_toFixed (js_mul (metric.forecast c ! i) (Fin 10)) 2"
      using that lc by (simp add: fn)
    ultimately show ?thesis by (simp only: Number_toFixed_rounded simp_thms)
  qed
  from m ids lc ls ln fc fs fn r show ?thesis by blast
qed

lemma three_eval_cpu:
  "map (\<lambda>v. Number_toFixed v 2)
     (take 7 [Fin 3, lit (10456 / 1000), Fin 50, lit (1 / 3), Fin 20, lit (34 / 10), Fin 71, Fin 99]) =
     [Fin 3, lit (1046 / 100), Fin 50, lit (33 / 100), Fin 20, lit (34 / 10), Fin 71]"
  by code_simp

lemma three_eval_storage:
  "map (\<lambda>cpu. Number_toFixed (js_mul (js_mul cpu (lit (1 / 100))) (lit (25 / 10))) 2)
     [Fin 3, lit (1046 / 100), Fin 50, lit (33 / 100), Fin 20, lit (34 / 10), Fin 71] =
     [lit (7 / 100), lit (26 / 100), lit (125 / 100), lit (1 / 100), lit (5 / 10), lit (9 / 100),
      lit (177 / 100)]"
  by code_simp

lemma three_eval_network:
  "map (\<lambda>cpu. Number_toFixed (js_mul cpu (Fin 10)) 2)
     [Fin 3, lit (1046 / 100), Fin 50, lit (33 / 100), Fin 20, lit (34 / 10), Fin 71] =
     [Fin 30, lit (1046 / 10), Fin 500, lit (33 / 10), Fin 200, Fin 34, Fin 710]"
  by code_simp

lemma lit_7_8: "lit (7 / 100) \<noteq> lit (8 / 100)"
  by code_simp

text \<open>
  The claim as stated fails.  On the sequence \<open>3, 10.456, 50, 1/3, 20, 3.4, 71, 99\<close> the
  first CPU entry is 3 and the first storage entry is 0.07: the double product
  \<open>3 * 0.01 * 2.5\<close> is just below 0.075.  The value \<open>3 * 0.025\<close> is 0.075, which rounds to
  0.08 and not to 0.07.
\<close>

theorem derived_scaling_counterexample:
  "metric.forecast
     (metrics (Some [Fin 3, lit (10456 / 1000), Fin 50, lit (1 / 3), Fin 20, lit (34 / 10),
                     Fin 71, Fin 99]) ! 0) ! 0 = Fin 3
   \<and> metric.forecast
       (metrics (Some [Fin 3, lit (10456 / 1000), Fin 50, lit (1 / 3), Fin 20, lit (34 / 10),
                       Fin 71, Fin 99]) ! 1) ! 0 = lit (7 / 100)
   \<and> rounded_to_2_decimals (Fin (3 * (25 / 1000))) (lit (8 / 100))
   \<and> \<not> rounded_to_2_decimals (Fin (3 * (25 / 1000))) (lit (7 / 100))"
proof -
  define fd where "fd = [Fin 3, lit (10456 / 1000), Fin 50, lit (1 / 3), Fin 20, lit (34 / 10),
                         Fin 71, Fin 99]"
  have ne: "fd \<noteq> []" by (simp add: fd_def)
  from metrics_forecasts [OF ne] obtain c s n where
    m: "metrics (Some fd) = [c, s, n]"
    and fc: "metric.forecast c = map (\<lambda>v. Number_toFixed v 2) (take 7 fd)"
    and fs: "metric.forecast s =
         map (\<lambda>cpu. Number_toFixed (js_mul (js_mul cpu (lit (1 / 100))) (lit (25 / 10))) 2)
           (metric.forecast c)"
    by blast
  have fc': "metric.forecast c =
      [Fin 3, lit (1046 / 100), Fin 50, lit (33 / 100), Fin 20, lit (34 / 10), Fin 71]"
    unfolding fc fd_def by (rule three_eval_cpu)
  have fs': "metric.forecast s =
      [lit (7 / 100), lit (26 / 100), lit (125 / 100), lit (1 / 100), lit (5 / 10), lit (9 / 100),
       lit (177 / 100)]"
    unfolding fs fc' by (rule three_eval_storage)
  have a: "metric.forecast (metrics (Some fd) ! 0) ! 0 = Fin 3"
    unfolding m by (simp add: fc')
  have b: "metric.forecast (metrics (Some fd) ! 1) ! 0 = lit (7 / 100)"
    unfolding m by (simp add: fs')
  have r8: "rounded_to_2_decimals (Fin (3 * (25 / 1000))) (lit (8 / 100))"
    by (rule rounded_to_2_decimalsI [where n = 8]) simp_all
  have r7: "\<not> rounded_to_2_decimals (Fin (3 * (25 / 1000))) (lit (7 / 100))"
  proof
    assume "rounded_to_2_decimals (Fin (3 * (25 / 1000))) (lit (7 / 100))"
    from rounded_to_2_decimals_unique [OF this r8] show False using lit_7_8 by simp
  qed
  from a b r8 r7 show ?thesis unfolding fd_def by blast
qed

theorem derived_scaling_witness:
  "length [Fin 3, lit (10456 / 1000), Fin 50, lit (1 / 3), Fin 20, lit (34 / 10), Fin 71, Fin 99] \<ge> 7
   \<and> (\<exists>c s n.
        metrics (Some [Fin 3, lit (10456 / 1000), Fin 50, lit (1 / 3), Fin 20, lit (34 / 10),
                       Fin 71, Fin 99]) = [c, s, n]
        \<and> metric.forecast c =
            [Fin 3, lit (1046 / 100), Fin 50, lit (33 / 100), Fin 20, lit (34 / 10), Fin 71]
        \<and> metric.forecast s =
            [lit (7 / 100), lit (26 / 100), lit (125 / 100), lit (1 / 100), lit (5 / 10),
             lit (9 / 100), lit (177 / 100)]
        \<and> metric.forecast n =
            [Fin 30, lit (1046 / 10), Fin 500, lit (33 / 10), Fin 200, Fin 34, Fin 710]
        \<and> rounded_to_2_decimals (lit (1 / 3)) (metric.forecast c ! 3)
        \<and> rounded_to_2_decimals (js_mul (js_mul (metric.forecast c ! 3) (lit (1 / 100))) (lit (25 / 10)))
            (metric.forecast s ! 3))"
proof -
  define fd where "fd = [Fin 3, lit (10456 / 1000), Fin 50, lit (1 / 3), Fin 20, lit (34 / 10),
                         Fin 71, Fin 99]"
  have h: "length fd \<ge> 7" by (simp add: fd_def)
  from derived_scaling [OF h] obtain c s n where
    m: "metrics (Some fd) = [c, s, n]"
    and fc: "metric.forecast c = map (\<lambda>v. Number_toFixed v 2) (take 7 fd)"
    and fs: "metric.forecast s =
               map (\<lambda>cpu. Number_toFixed (js_mul (js_mul cpu (lit (1 / 100))) (lit (25 / 10))) 2)
                 (metric.forecast c)"
    and fn: "metric.forecast n =
               map (\<lambda>cpu. Number_toFixed (js_mul cpu (Fin 10)) 2) (metric.forecast c)"
    and r: "\<forall>i < 7.
                 rounded_to_2_decimals (fd ! i) (metric.forecast c ! i)
               \<and> rounded_to_2_decimals
                   (js_mul (js_mul (metric.forecast c ! i) (lit (1 / 100))) (lit (25 / 10)))
                   (metric.forecast s ! i)
               \<and> rounded_to_2_decimals (js_mul (metric.forecast c ! i) (Fin 10))
                   (metric.forecast n ! i)"
    by blast
  have fc': "metric.forecast c =
      [Fin 3, lit (1046 / 100), Fin 50, lit (33 / 100), Fin 20, lit (34 / 10), Fin 71]"
    unfolding fc fd_def by (rule three_eval_cpu)
  have fs': "metric.forecast s =
      [lit (7 / 100), lit (26 / 100), lit (125 / 100), lit (1 / 100), lit (5 / 10), lit (9 / 100),
       lit (177 / 100)]"
    unfolding fs fc' by (rule three_eval_storage)
  have fn': "metric.forecast n =
      [Fin 30, lit (1046 / 10), Fin 500, lit (33 / 10), Fin 200, Fin 34, Fin 710]"
    unfolding fn fc' by (rule three_eval_network)
  have "(3 :: nat) < 7" by simp
  with r have "rounded_to_2_decimals (fd ! 3) (metric.forecast c ! 3)
       \<and> rounded_to_2_decimals
           (js_mul (js_mul (metric.forecast c ! 3) (lit (1 / 100))) (lit (25 / 10)))
           (metric.forecast s ! 3)"
    by blast
  moreover have "fd ! 3 = lit (1 / 3)" by (simp add: fd_def)
  ultimately have r3: "rounded_to_2_decimals (lit (1 / 3)) (metric.forecast c ! 3)
       \<and> rounded_to_2_decimals
           (js_mul (js_mul (metric.forecast c ! 3) (lit (1 / 100))) (lit (25 / 10)))
           (metric.forecast s ! 3)"
    by simp
  from h m fc' fs' fn' r3 show ?thesis unfolding fd_def by blast
qed

subsection \<open>What-if simulation\<close>

lemma whatIfResults_Some:
  assumes "find (\<lambda>m. id' m = ''cpu'') ms = Some c"
    and "find (\<lambda>m. id' m = ''storage'') ms = Some s"
  shows "whatIfResults ms wd td be =
     Some \<lparr>baseCpu = (if metric.forecast c = [] then current c else last (metric.forecast c)),
           baseStorage = (if metric.forecast s = [] then current s else last (metric.forecast s)),
           simulatedCpu =
             nullish (beSimCpu be)
               (Number_toFixed
                  (js_mul (if metric.forecast c = [] then current c else last (metric.forecast c))
                     (js_add (Fin 1) (js_div wd (Fin 100)))) 2),
           simulatedStorage =
             nullish (beSimStorage be)
               (Number_toFixed
                  (js_mul (if metric.forecast s = [] then current s else last (metric.forecast s))
                     (js_add (Fin 1) (js_div td (Fin 100)))) 2)\<rparr>"
  using assms by (simp add: whatIfResults_def Let_def nullish_last)

text \<open>
  Claim C3, as the code has it.  Whenever the metrics hold a CPU and a storage metric,
  the what-if result exists; its baselines are the last forecast entries of the two
  metrics (the current value for an empty forecast).  With no backend value for CPU the
  simulated CPU value is the product of the CPU baseline and \<open>1 + workloadDelta / 100\<close>,
  the quotient, the sum and the product each computed on doubles, rounded to 2 decimals;
  with no backend value for storage the simulated storage value is the same of the
  storage baseline and \<open>trafficDelta\<close>.  A baseline of 50 with a delta of +20 gives 60.
\<close>

theorem whatIf_local_simulation:
  assumes "find (\<lambda>m. id' m = ''cpu'') ms = Some c"
    and "find (\<lambda>m. id' m = ''storage'') ms = Some s"
  shows "\<exists>r. whatIfResults ms workloadDelta trafficDelta be = Some r
           \<and> baseCpu r = (if metric.forecast c = [] then current c else last (metric.forecast c))
           \<and> baseStorage r = (if metric.forecast s = [] then current s else last (metric.forecast s))
           \<and> (beSimCpu be = None \<longrightarrow>
                 simulatedCpu r =
                   Number_toFixed (js_mul (baseCpu r) (js_add (Fin 1) (js_div workloadDelta (Fin 100)))) 2
               \<and> rounded_to_2_decimals
                   (js_mul (baseCpu r) (js_add (Fin 1) (js_div workloadDelta (Fin 100))))
                   (simulatedCpu r))
           \<and> (beSimStorage be = None \<longrightarrow>
                 simulatedStorage r =
                   Number_toFixed (js_mul (baseStorage r) (js_add (Fin 1) (js_div trafficDelta (Fin 100)))) 2
               \<and> rounded_to_2_decimals
                   (js_mul (baseStorage r) (js_add (Fin 1) (js_div trafficDelta (Fin 100))))
                   (simulatedStorage r))
           \<and> Number_toFixed (js_mul (Fin 50) (js_add (Fin 1) (js_div (Fin 20) (Fin 100)))) 2 = Fin 60"
proof -
  have e: "Number_toFixed (js_mul (Fin 50) (js_add (Fin 1) (js_div (Fin 20) (Fin 100)))) 2 = Fin 60"
    by code_simp
  show ?thesis
    unfolding whatIfResults_Some [OF assms]
    by (simp add: nullish_def Number_toFixed_rounded e del: Number_toFixed.simps js_mul.simps js_add.simps js_div.simps)
qed

lemma last_replicate7: "last (replicate 7 x) = x" and replicate7_ne: "replicate 7 x \<noteq> []"
  by (simp_all add: numeral_eq_Suc)

lemma fours_eval:
  "Number_toFixed (js_mul (js_mul (Number_toFixed (Fin 4) 2) (lit (1 / 100))) (lit (25 / 10))) 2 =
     lit (1 / 10)"
  "Number_toFixed (js_mul (lit (1 / 10)) (js_add (Fin 1) (js_div (Fin 15) (Fin 100)))) 2 =
     lit (11 / 100)"
  "lit (11 / 100) \<noteq> lit (12 / 100)"
  by code_simp+

lemma fours_exact:
  "val (lit (1 / 10)) = 3602879701896397 / 36028797018963968"
  by code_simp

text \<open>
  The claim as stated fails.  On the forecast sequence of seven 4s the storage baseline
  is 0.1; with a traffic delta of +15 and no backend response the simulated storage value
  is 0.11, because the double product \<open>0.1 * 1.15\<close> is just below 0.115.  The value
  \<open>0.1 * (1 + 15 / 100)\<close> rounds to 0.12, whether 0.1 is read as the decimal or as the
  double nearest to it.
\<close>

theorem whatIf_local_simulation_counterexample:
  "(\<exists>r. whatIfResults (metrics (Some (replicate 7 (Fin 4)))) (Fin 0) (Fin 15) None = Some r
        \<and> baseStorage r = lit (1 / 10) \<and> simulatedStorage r = lit (11 / 100))
   \<and> beSimStorage None = None
   \<and> rounded_to_2_decimals (Fin (1 / 10 * (1 + 15 / 100))) (lit (12 / 100))
   \<and> \<not> rounded_to_2_decimals (Fin (1 / 10 * (1 + 15 / 100))) (lit (11 / 100))
   \<and> rounded_to_2_decimals (Fin (val (lit (1 / 10)) * (1 + 15 / 100))) (lit (12 / 100))
   \<and> \<not> rounded_to_2_decimals (Fin (val (lit (1 / 10)) * (1 + 15 / 100))) (lit (11 / 100))"
proof -
  from metrics_finds [OF replicate7_ne] obtain c s where
    c: "find (\<lambda>m. id' m = ''cpu'') (metrics (Some (replicate 7 (Fin 4)))) = Some c"
    and s: "find (\<lambda>m. id' m = ''storage'') (metrics (Some (replicate 7 (Fin 4)))) = Some s"
    and fc: "metric.forecast c = map (\<lambda>v. Number_toFixed v 2) (take 7 (replicate 7 (Fin 4)))"
    and fs: "metric.forecast s =
         map (\<lambda>cpu. Number_toFixed (js_mul (js_mul cpu (lit (1 / 100))) (lit (25 / 10))) 2)
           (metric.forecast c)"
    by blast
  have fs': "metric.forecast s = replicate 7 (lit (1 / 10))"
    unfolding fs fc by (simp only: take_replicate map_replicate min.idem fours_eval)
  have n: "beSimStorage None = None" by (simp add: beSimStorage_def)
  have bs: "(if metric.forecast s = [] then current s else last (metric.forecast s)) = lit (1 / 10)"
    unfolding fs' by (simp only: replicate7_ne last_replicate7 if_False)
  have r: "\<exists>r. whatIfResults (metrics (Some (replicate 7 (Fin 4)))) (Fin 0) (Fin 15) None = Some r
        \<and> baseStorage r = lit (1 / 10) \<and> simulatedStorage r = lit (11 / 100)"
    unfolding whatIfResults_Some [OF c s] bs n
    by (simp add: nullish_def fours_eval del: Number_toFixed.simps js_mul.simps js_add.simps js_div.simps)
  have d12: "rounded_to_2_decimals (Fin (1 / 10 * (1 + 15 / 100))) (lit (12 / 100))"
    by (rule rounded_to_2_decimalsI [where n = 12]) simp_all
  have d11: "\<not> rounded_to_2_decimals (Fin (1 / 10 * (1 + 15 / 100))) (lit (11 / 100))"
  proof
    assume "rounded_to_2_decimals (Fin (1 / 10 * (1 + 15 / 100))) (lit (11 / 100))"
    from rounded_to_2_decimals_unique [OF this d12] show False using fours_eval(3) by simp
  qed
  have v12: "rounded_to_2_decimals (Fin (val (lit (1 / 10)) * (1 + 15 / 100))) (lit (12 / 100))"
    unfolding fours_exact by (rule rounded_to_2_decimalsI [where n = 12]) simp_all
  have v11: "\<not> rounded_to_2_decimals (Fin (val (lit (1 / 10)) * (1 + 15 / 100))) (lit (11 / 100))"
  proof
    assume "rounded_to_2_decimals (Fin (val (lit (1 / 10)) * (1 + 15 / 100))) (lit (11 / 100))"
    from rounded_to_2_decimals_unique [OF this v12] show False using fours_eval(3) by simp
  qed
  from r n d12 d11 v12 v11 show ?thesis by blast
qed

lemma fifty_eval:
  "Number_toFixed (lit (5033 / 100)) 2 = lit (5033 / 100)"
  "Number_toFixed (js_mul (js_mul (lit (5033 / 100)) (lit (1 / 100))) (lit (25 / 10))) 2 =
     lit (126 / 100)"
  "Number_toFixed (js_mul (lit (5033 / 100)) (js_add (Fin 1) (js_div (Fin 20) (Fin 100)))) 2 =
     lit (604 / 10)"
  "Number_toFixed (js_mul (lit (126 / 100)) (js_add (Fin 1) (js_div (Fin 15) (Fin 100)))) 2 =
     lit (145 / 100)"
  by code_simp+

lemma fifty_metrics:
  "\<exists>c s. find (\<lambda>m. id' m = ''cpu'') (metrics (Some (replicate 7 (lit (5033 / 100))))) = Some c
     \<and> find (\<lambda>m. id' m = ''storage'') (metrics (Some (replicate 7 (lit (5033 / 100))))) = Some s
     \<and> metric.forecast c = replicate 7 (lit (5033 / 100))
     \<and> metric.forecast s = replicate 7 (lit (126 / 100))"
proof -
  from metrics_finds [OF replicate7_ne] obtain c s where
    c: "find (\<lambda>m. id' m = ''cpu'') (metrics (Some (replicate 7 (lit (5033 / 100))))) = Some c"
    and s: "find (\<lambda>m. id' m = ''storage'') (metrics (Some (replicate 7 (lit (5033 / 100))))) = Some s"
    and fc: "metric.forecast c =
               map (\<lambda>v. Number_toFixed v 2) (take 7 (replicate 7 (lit (5033 / 100))))"
    and fs: "metric.forecast s =
         map (\<lambda>cpu. Number_toFixed (js_mul (js_mul cpu (lit (1 / 100))) (lit (25 / 10))) 2)
           (metric.forecast c)"
    by blast
  have fc': "metric.forecast c = replicate 7 (lit (5033 / 100))"
    unfolding fc by (simp only: take_replicate map_replicate min.idem fifty_eval)
  have fs': "metric.forecast s = replicate 7 (lit (126 / 100))"
    unfolding fs fc' by (simp only: map_replicate fifty_eval)
  from c s fc' fs' show ?thesis by blast
qed

theorem whatIf_local_simulation_witness:
  "find (\<lambda>m. id' m = ''cpu'') (metrics (Some (replicate 7 (lit (5033 / 100))))) \<noteq> None
   \<and> find (\<lambda>m. id' m = ''storage'') (metrics (Some (replicate 7 (lit (5033 / 100))))) \<noteq> None
   \<and> beSimCpu None = None \<and> beSimStorage None = None
   \<and> (\<exists>r. whatIfResults (metrics (Some (replicate 7 (lit (5033 / 100))))) (Fin 20) (Fin 15) None
             = Some r
          \<and> baseCpu r = lit (5033 / 100) \<and> simulatedCpu r = lit (604 / 10)
          \<and> baseStorage r = lit (126 / 100) \<and> simulatedStorage r = lit (145 / 100)
          \<and> rounded_to_2_decimals
               (js_mul (lit (5033 / 100)) (js_add (Fin 1) (js_div (Fin 20) (Fin 100))))
               (lit (604 / 10)))"
proof -
  from fifty_metrics obtain c s where
    c: "find (\<lambda>m. id' m = ''cpu'') (metrics (Some (replicate 7 (lit (5033 / 100))))) = Some c"
    and s: "find (\<lambda>m. id' m = ''storage'') (metrics (Some (replicate 7 (lit (5033 / 100))))) = Some s"
    and fc: "metric.forecast c = replicate 7 (lit (5033 / 100))"
    and fs: "metric.forecast s = replicate 7 (lit (126 / 100))"
    by blast
  have b: "beSimCpu None = None" "beSimStorage None = None"
    by (simp_all add: beSimCpu_def beSimStorage_def)
  from whatIf_local_simulation [OF c s, of "Fin 20" "Fin 15" None] b obtain r where
    r: "whatIfResults (metrics (Some (replicate 7 (lit (5033 / 100))))) (Fin 20) (Fin 15) None = Some r"
    and bc: "baseCpu r = (if metric.forecast c = [] then current c else last (metric.forecast c))"
    and bs: "baseStorage r = (if metric.forecast s = [] then current s else last (metric.forecast s))"
    and sc: "simulatedCpu r =
               Number_toFixed (js_mul (baseCpu r) (js_add (Fin 1) (js_div (Fin 20) (Fin 100)))) 2"
    and rc: "rounded_to_2_decimals
               (js_mul (baseCpu r) (js_add (Fin 1) (js_div (Fin 20) (Fin 100)))) (simulatedCpu r)"
    and ss: "simulatedStorage r =
               Number_toFixed (js_mul (baseStorage r) (js_add (Fin 1) (js_div (Fin 15) (Fin 100)))) 2"
    by blast
  have bc': "baseCpu r = lit (5033 / 100)"
    unfolding bc fc by (simp only: replicate7_ne last_replicate7 if_False)
  have bs': "baseStorage r = lit (126 / 100)"
    unfolding bs fs by (simp only: replicate7_ne last_replicate7 if_False)
  have sc': "simulatedCpu r = lit (604 / 10)" unfolding sc bc' by (rule fifty_eval)
  have ss': "simulatedStorage r = lit (145 / 100)" unfolding ss bs' by (rule fifty_eval)
  have rc': "rounded_to_2_decimals
               (js_mul (lit (5033 / 100)) (js_add (Fin 1) (js_div (Fin 20) (Fin 100))))
               (lit (604 / 10))"
    using rc unfolding bc' sc' .
  from c s b r bc' bs' sc' ss' rc' show ?thesis by simp
qed

lemma beSimCpu_series:
  "beSimCpu (Some b) = (case simulated_cpu b of None \<Rightarrow> None
                        | Some xs \<Rightarrow> if xs = [] then None else Some (last xs))"
  by (simp add: beSimCpu_def elem_at_last_opt split: option.splits)

lemma beSimStorage_series:
  "beSimStorage (Some b) = (case simulated_storage b of None \<Rightarrow> None
                        | Some xs \<Rightarrow> if xs = [] then None else Some (last xs))"
  by (simp add: beSimStorage_def elem_at_last_opt split: option.splits)

text \<open>
  Claim C5.  Whenever the backend response holds a non-empty \<open>simulated_cpu\<close> series, the
  simulated CPU value of the what-if result (the value the view prints) is the last
  element of that series, whatever the baseline and the delta are, and likewise for
  \<open>simulated_storage\<close>; whenever there is no response, or the response lacks the series,
  the value is the local one, the baseline times \<open>1 + delta / 100\<close> at two decimals.
\<close>

theorem whatIf_backend_preferred:
  assumes "find (\<lambda>m. id' m = ''cpu'') ms = Some c"
    and "find (\<lambda>m. id' m = ''storage'') ms = Some s"
  shows "\<exists>r. whatIfResults ms workloadDelta trafficDelta be = Some r
           \<and> (\<forall>b xs. be = Some b \<and> simulated_cpu b = Some xs \<and> xs \<noteq> []
                 \<longrightarrow> simulatedCpu r = last xs)
           \<and> (\<forall>b xs. be = Some b \<and> simulated_storage b = Some xs \<and> xs \<noteq> []
                 \<longrightarrow> simulatedStorage r = last xs)
           \<and> (be = None \<or> (\<exists>b. be = Some b \<and> simulated_cpu b = None)
                 \<longrightarrow> simulatedCpu r =
                       Number_toFixed
                         (js_mul (baseCpu r) (js_add (Fin 1) (js_div workloadDelta (Fin 100)))) 2)
           \<and> (be = None \<or> (\<exists>b. be = Some b \<and> simulated_storage b = None)
                 \<longrightarrow> simulatedStorage r =
                       Number_toFixed
                         (js_mul (baseStorage r) (js_add (Fin 1) (js_div trafficDelta (Fin 100)))) 2)"
proof -
  have n: "beSimCpu None = None" "beSimStorage None = None"
    by (simp_all add: beSimCpu_def beSimStorage_def)
  show ?thesis
    unfolding whatIfResults_Some [OF assms]
    by (auto simp add: nullish_def beSimCpu_series beSimStorage_series n
        simp del: Number_toFixed.simps js_mul.simps js_add.simps js_div.simps)
qed

theorem whatIf_backend_preferred_witness:
  "find (\<lambda>m. id' m = ''cpu'') (metrics (Some (replicate 7 (lit (5033 / 100))))) \<noteq> None
   \<and> find (\<lambda>m. id' m = ''storage'') (metrics (Some (replicate 7 (lit (5033 / 100))))) \<noteq> None
   \<and> (\<exists>r. whatIfResults (metrics (Some (replicate 7 (lit (5033 / 100))))) (Fin 20) (Fin 15)
            (Some \<lparr>base_cpu = None, simulated_cpu = Some [Fin 55, Fin 66],
                   base_storage = None, simulated_storage = None\<rparr>) = Some r
          \<and> simulatedCpu r = Fin 66
          \<and> baseStorage r = lit (126 / 100)
          \<and> simulatedStorage r = lit (145 / 100))"
proof -
  from fifty_metrics obtain c s where
    c: "find (\<lambda>m. id' m = ''cpu'') (metrics (Some (replicate 7 (lit (5033 / 100))))) = Some c"
    and s: "find (\<lambda>m. id' m = ''storage'') (metrics (Some (replicate 7 (lit (5033 / 100))))) = Some s"
    and fs: "metric.forecast s = replicate 7 (lit (126 / 100))"
    by blast
  define b where "b = \<lparr>base_cpu = None, simulated_cpu = Some [Fin 55, Fin 66],
                        base_storage = None, simulated_storage = None\<rparr>"
  from whatIf_backend_preferred [OF c s, of "Fin 20" "Fin 15" "Some b"] obtain r where
    r: "whatIfResults (metrics (Some (replicate 7 (lit (5033 / 100))))) (Fin 20) (Fin 15) (Some b)
          = Some r"
    and p: "\<forall>b' xs. Some b = Some b' \<and> simulated_cpu b' = Some xs \<and> xs \<noteq> []
                 \<longrightarrow> simulatedCpu r = last xs"
    and q: "Some b = None \<or> (\<exists>b'. Some b = Some b' \<and> simulated_storage b' = None)
                 \<longrightarrow> simulatedStorage r =
                       Number_toFixed
                         (js_mul (baseStorage r) (js_add (Fin 1) (js_div (Fin 15) (Fin 100)))) 2"
    by blast
  have sb: "simulated_cpu b = Some [Fin 55, Fin 66]" "simulated_storage b = None"
    by (simp_all add: b_def)
  from p sb(1) have sc: "simulatedCpu r = Fin 66" by auto
  from q sb(2) have ss: "simulatedStorage r =
      Number_toFixed (js_mul (baseStorage r) (js_add (Fin 1) (js_div (Fin 15) (Fin 100)))) 2"
    by auto
  have "baseStorage r = (if metric.forecast s = [] then current s else last (metric.forecast s))"
    using r unfolding whatIfResults_Some [OF c s] by auto
  then have bs: "baseStorage r = lit (126 / 100)"
    unfolding fs by (simp only: replicate7_ne last_replicate7 if_False)
  have ss': "simulatedStorage r = lit (145 / 100)" unfolding ss bs by (rule fifty_eval)
  from c s r sc bs ss' show ?thesis unfolding b_def by simp
qed

subsection \<open>Pie shares\<close>

lemma metrics_fallback:
  assumes "fdo = None \<or> fdo = Some []"
  shows "map id' (metrics fdo) = [''cpu'', ''storage'', ''network'']"
    and "map pie (metrics fdo) =
           replicate 3 [\<lparr>pie_name = ''Used'', pie_value = Fin 0\<rparr>,
                        \<lparr>pie_name = ''Remaining'', pie_value = Fin 100\<rparr>]"
  using assms by (auto simp add: metrics_def numeral_3_eq_3)

lemma nth_map3:
  assumes "map f xs = [a, b, c]"
  shows "f (xs ! 1) = b" and "f (xs ! 2) = c"
proof -
  have l: "length xs = 3" using assms by (metis length_map length_Cons list.size(3) numeral_3_eq_3)
  have "f (xs ! 1) = map f xs ! 1" using l by simp
  then show "f (xs ! 1) = b" unfolding assms by simp
  have "f (xs ! 2) = map f xs ! 2" using l by simp
  then show "f (xs ! 2) = c" unfolding assms by simp
qed

lemma metrics_derived:
  assumes "fd \<noteq> []"
  shows "\<exists>c s n. metrics (Some fd) = [c, s, n]
     \<and> id' c = ''cpu'' \<and> id' s = ''storage'' \<and> id' n = ''network''
     \<and> current c = or_else (Some (Number_toFixed (hd fd) 2)) (Fin 0)
     \<and> metric.forecast s \<noteq> [] \<and> metric.forecast n \<noteq> []
     \<and> current s = Number_toFixed (js_mul (js_mul (current c) (lit (1 / 100))) (lit (25 / 10))) 2
     \<and> current n = Number_toFixed (js_mul (current c) (Fin 10)) 2
     \<and> pie s = storage_pie (metric.forecast s) (current s)
     \<and> pie n = network_pie (metric.forecast n) (current n)"
proof -
  have "elem_at (map (\<lambda>v. Number_toFixed v 2) (take 7 fd)) 0 = Some (Number_toFixed (hd fd) 2)"
    using assms by (cases fd) (simp_all add: elem_at_def)
  then show ?thesis
    unfolding metrics_some [OF assms] Let_def using assms by simp
qed

lemma storage_pie_shape:
  "xs \<noteq> [] \<Longrightarrow> storage_pie xs cur =
     [\<lparr>pie_name = ''Used'',
       pie_value =
         Math_min (Fin 100)
           (Math_round
              (js_mul (js_div cur
                         (Math_max (lit (1 / 10))
                            (if last xs = Fin 0 \<or> last xs = NaN then cur else last xs)))
                 (Fin 100)))\<rparr>,
      \<lparr>pie_name = ''Remaining'',
       pie_value =
         Math_max (Fin 0)
           (js_sub (Fin 100)
              (Math_round
                 (js_mul (js_div cur
                            (Math_max (lit (1 / 10))
                               (if last xs = Fin 0 \<or> last xs = NaN then cur else last xs)))
                    (Fin 100))))\<rparr>]"
  by (simp only: storage_pie_def Let_def or_else_last if_False simp_thms)

lemma network_pie_shape:
  "xs \<noteq> [] \<Longrightarrow> network_pie xs cur =
     [\<lparr>pie_name = ''Used'',
       pie_value =
         Math_min (Fin 100)
           (Math_round
              (js_mul (js_div cur
                         (Math_max (Fin 1)
                            (if last xs = Fin 0 \<or> last xs = NaN then cur else last xs)))
                 (Fin 100)))\<rparr>,
      \<lparr>pie_name = ''Remaining'',
       pie_value =
         Math_max (Fin 0)
           (js_sub (Fin 100)
              (Math_round
                 (js_mul (js_div cur
                            (Math_max (Fin 1)
                               (if last xs = Fin 0 \<or> last xs = NaN then cur else last xs)))
                    (Fin 100))))\<rparr>]"
  by (simp only: network_pie_def Let_def or_else_last if_False simp_thms)

text \<open>Numbers that are not negative: plus infinity and the finite ones from 0 on.\<close>

lemma toFixed_nonneg:
  assumes "a = PInf \<or> (\<exists>x. a = Fin x \<and> 0 \<le> x)"
  shows "Number_toFixed a f = PInf \<or> (\<exists>x. Number_toFixed a f = Fin x \<and> 0 \<le> x)"
proof (cases a)
  case (Fin x)
  with assms have x: "0 \<le> x" by simp
  show ?thesis
  proof (cases "1000000000000000000000 \<le> \<bar>x\<bar>")
    case True
    then show ?thesis using x by (simp add: Fin)
  next
    case False
    have "0 \<le> \<bar>x\<bar> * 10 ^ f + 1 / 2" by simp
    then have "0 \<le> \<lfloor>\<bar>x\<bar> * 10 ^ f + 1 / 2\<rfloor>" by (simp only: zero_le_floor)
    then have "(0 :: rat) \<le> of_int \<lfloor>\<bar>x\<bar> * 10 ^ f + 1 / 2\<rfloor> / 10 ^ f" by simp
    from rnd_nonneg [OF this] show ?thesis using False x by (simp add: Fin Let_def)
  qed
qed (insert assms, simp_all)

lemma mul_pos_nonneg:
  assumes "a = PInf \<or> (\<exists>x. a = Fin x \<and> 0 \<le> x)" and "0 < k"
  shows "js_mul a (Fin k) = PInf \<or> (\<exists>x. js_mul a (Fin k) = Fin x \<and> 0 \<le> x)"
proof (cases a)
  case (Fin x)
  with assms have "0 \<le> x * k" by simp
  from rnd_nonneg [OF this] show ?thesis by (simp add: Fin)
qed (insert assms, simp_all)

lemma max_floor_pos:
  assumes "0 < fl"
  shows "Math_max (Fin fl) b = NaN \<or> Math_max (Fin fl) b = PInf
         \<or> (\<exists>y. Math_max (Fin fl) b = Fin y \<and> 0 < y)"
  using assms by (cases b) (auto simp add: Math_max_def)

lemma div_pos_nonneg:
  assumes "a = PInf \<or> (\<exists>x. a = Fin x \<and> 0 \<le> x)"
    and "d = NaN \<or> d = PInf \<or> (\<exists>y. d = Fin y \<and> 0 < y)"
  shows "js_div a d = NaN \<or> js_div a d = PInf \<or> (\<exists>x. js_div a d = Fin x \<and> 0 \<le> x)"
proof (cases a)
  case (Fin x)
  with assms(1) have x: "0 \<le> x" by simp
  show ?thesis
  proof (cases d)
    case d: (Fin y)
    with assms(2) have y: "0 < y" by simp
    then have "0 \<le> x / y" using x by simp
    from rnd_nonneg [OF this] show ?thesis using y by (simp add: Fin d)
  qed (simp_all add: Fin)
next
  case PInf
  then show ?thesis using assms(2) by (cases d) auto
qed (insert assms, simp_all)

lemma used_percent_range:
  assumes "cur = PInf \<or> (\<exists>x. cur = Fin x \<and> 0 \<le> x)" and "0 < fl"
  shows "Math_min (Fin 100) (Math_round (js_mul (js_div cur (Math_max (Fin fl) next)) (Fin 100))) = NaN
         \<or> (\<exists>u. Math_min (Fin 100)
                   (Math_round (js_mul (js_div cur (Math_max (Fin fl) next)) (Fin 100))) = Fin u
                \<and> 0 \<le> u \<and> u \<le> 100)"
proof -
  define q where "q = js_div cur (Math_max (Fin fl) next)"
  have q: "q = NaN \<or> q = PInf \<or> (\<exists>x. q = Fin x \<and> 0 \<le> x)"
    unfolding q_def by (rule div_pos_nonneg [OF assms(1) max_floor_pos [OF assms(2)]])
  define p where "p = js_mul q (Fin 100)"
  have p: "p = NaN \<or> p = PInf \<or> (\<exists>x. p = Fin x \<and> 0 \<le> x)"
  proof (cases "q = NaN")
    case True
    then show ?thesis by (simp add: p_def)
  next
    case False
    with q have "q = PInf \<or> (\<exists>x. q = Fin x \<and> 0 \<le> x)" by blast
    from mul_pos_nonneg [OF this, of 100] show ?thesis by (simp add: p_def)
  qed
  have r: "Math_round p = NaN \<or> Math_round p = PInf \<or> (\<exists>x. Math_round p = Fin x \<and> 0 \<le> x)"
    using p by (cases p) auto
  have "Math_min (Fin 100) (Math_round p) = NaN
        \<or> (\<exists>u. Math_min (Fin 100) (Math_round p) = Fin u \<and> 0 \<le> u \<and> u \<le> 100)"
    using r by (cases "Math_round p") (auto simp add: Math_min_def)
  then show ?thesis unfolding p_def q_def .
qed

lemma used_percent_upper:
  "Math_min (Fin 100) a = NaN \<or> js_le (Math_min (Fin 100) a) (Fin 100)"
  by (cases a) (auto simp add: Math_min_def js_le_def)

lemma lit_floor_consts:
  "lit (1 / 10) = Fin (3602879701896397 / 36028797018963968)"
  "lit (1 / 100) = Fin (5764607523034235 / 576460752303423488)"
  "lit (25 / 10) = Fin (5 / 2)"
  by code_simp+

text \<open>
  Claim C4, as the code has it.  The metrics are CPU, storage and network in this order,
  and the pies of storage and network are a "Used" and a "Remaining" slice.  Without
  forecast data the "Used" share is 0.  With forecast data it is the current value
  divided by the larger of a floor (0.1 for storage, 1 for network) and the last forecast
  value (the current value where that is 0 or \<open>NaN\<close>), times 100, each step on doubles,
  then rounded to an integer and capped at 100.  The share is \<open>NaN\<close> or at most 100; and
  when the first forecast entry is finite and not negative it is \<open>NaN\<close> or lies between 0
  and 100.
\<close>

theorem used_share:
  "map id' (metrics fdo) = [''cpu'', ''storage'', ''network'']
   \<and> map pie_name (pie (metrics fdo ! 1)) = [''Used'', ''Remaining'']
   \<and> map pie_name (pie (metrics fdo ! 2)) = [''Used'', ''Remaining'']
   \<and> (pie_value (hd (pie (metrics fdo ! 1))) = NaN
        \<or> js_le (pie_value (hd (pie (metrics fdo ! 1)))) (Fin 100))
   \<and> (pie_value (hd (pie (metrics fdo ! 2))) = NaN
        \<or> js_le (pie_value (hd (pie (metrics fdo ! 2)))) (Fin 100))
   \<and> (fdo = None \<or> fdo = Some [] \<longrightarrow>
         pie_value (hd (pie (metrics fdo ! 1))) = Fin 0
       \<and> pie_value (hd (pie (metrics fdo ! 2))) = Fin 0)
   \<and> (fdo \<noteq> None \<and> fdo \<noteq> Some [] \<longrightarrow>
         pie_value (hd (pie (metrics fdo ! 1))) =
           Math_min (Fin 100)
             (Math_round
                (js_mul
                   (js_div (current (metrics fdo ! 1))
                      (Math_max (lit (1 / 10))
                         (if last (metric.forecast (metrics fdo ! 1)) = Fin 0
                             \<or> last (metric.forecast (metrics fdo ! 1)) = NaN
                          then current (metrics fdo ! 1)
                          else last (metric.forecast (metrics fdo ! 1)))))
                   (Fin 100)))
       \<and> pie_value (hd (pie (metrics fdo ! 2))) =
           Math_min (Fin 100)
             (Math_round
                (js_mul
                   (js_div (current (metrics fdo ! 2))
                      (Math_max (Fin 1)
                         (if last (metric.forecast (metrics fdo ! 2)) = Fin 0
                             \<or> last (metric.forecast (metrics fdo ! 2)) = NaN
                          then current (metrics fdo ! 2)
                          else last (metric.forecast (metrics fdo ! 2)))))
                   (Fin 100)))
       \<and> (\<forall>x. hd (the fdo) = Fin x \<and> 0 \<le> x \<longrightarrow>
             (pie_value (hd (pie (metrics fdo ! 1))) = NaN
              \<or> (\<exists>u. pie_value (hd (pie (metrics fdo ! 1))) = Fin u \<and> 0 \<le> u \<and> u \<le> 100))
           \<and> (pie_value (hd (pie (metrics fdo ! 2))) = NaN
              \<or> (\<exists>u. pie_value (hd (pie (metrics fdo ! 2))) = Fin u \<and> 0 \<le> u \<and> u \<le> 100))))"
proof (cases "fdo = None \<or> fdo = Some []")
  case True
  have p: "map pie (metrics fdo) =
             [[\<lparr>pie_name = ''Used'', pie_value = Fin 0\<rparr>, \<lparr>pie_name = ''Remaining'', pie_value = Fin 100\<rparr>],
              [\<lparr>pie_name = ''Used'', pie_value = Fin 0\<rparr>, \<lparr>pie_name = ''Remaining'', pie_value = Fin 100\<rparr>],
              [\<lparr>pie_name = ''Used'', pie_value = Fin 0\<rparr>, \<lparr>pie_name = ''Remaining'', pie_value = Fin 100\<rparr>]]"
    using metrics_fallback(2) [OF True] by (simp add: numeral_3_eq_3)
  have p1: "pie (metrics fdo ! 1) = [\<lparr>pie_name = ''Used'', pie_value = Fin 0\<rparr>, \<lparr>pie_name = ''Remaining'', pie_value = Fin 100\<rparr>]"
    and p2: "pie (metrics fdo ! 2) = [\<lparr>pie_name = ''Used'', pie_value = Fin 0\<rparr>, \<lparr>pie_name = ''Remaining'', pie_value = Fin 100\<rparr>]"
    by (rule nth_map3 [OF p])+
  have ns: "map pie_name (pie (metrics fdo ! 1)) = [''Used'', ''Remaining'']"
    and nn: "map pie_name (pie (metrics fdo ! 2)) = [''Used'', ''Remaining'']"
    and z: "pie_value (hd (pie (metrics fdo ! 1))) = Fin 0" "pie_value (hd (pie (metrics fdo ! 2))) = Fin 0"
    unfolding p1 p2 by simp_all
  have le: "js_le (pie_value (hd (pie (metrics fdo ! 1)))) (Fin 100)"
    "js_le (pie_value (hd (pie (metrics fdo ! 2)))) (Fin 100)"
    unfolding z by (simp_all add: js_le_def)
  have nf: "\<not> (fdo \<noteq> None \<and> fdo \<noteq> Some [])" using True by blast
  from metrics_fallback(1) [OF True] ns nn le z nf show ?thesis by blast
next
  case False
  then obtain fd where fd: "fdo = Some fd" "fd \<noteq> []" by auto
  from metrics_derived [OF fd(2)] obtain c s n where
    m: "metrics (Some fd) = [c, s, n]"
    and ids: "id' c = ''cpu''" "id' s = ''storage''" "id' n = ''network''"
    and cc: "current c = or_else (Some (Number_toFixed (hd fd) 2)) (Fin 0)"
    and ne: "metric.forecast s \<noteq> []" "metric.forecast n \<noteq> []"
    and cs: "current s = Number_toFixed (js_mul (js_mul (current c) (lit (1 / 100))) (lit (25 / 10))) 2"
    and cn: "current n = Number_toFixed (js_mul (current c) (Fin 10)) 2"
    and ps: "pie s = storage_pie (metric.forecast s) (current s)"
    and pn: "pie n = network_pie (metric.forecast n) (current n)"
    by blast
  have s1: "metrics fdo ! 1 = s" and n2: "metrics fdo ! 2 = n"
    unfolding fd(1) m by simp_all
  have idm: "map id' (metrics fdo) = [''cpu'', ''storage'', ''network'']"
    unfolding fd(1) m using ids by simp
  have us: "pie_value (hd (pie s)) =
      Math_min (Fin 100)
        (Math_round
           (js_mul
              (js_div (current s)
                 (Math_max (lit (1 / 10))
                    (if last (metric.forecast s) = Fin 0 \<or> last (metric.forecast s) = NaN
                     then current s else last (metric.forecast s))))
              (Fin 100)))"
    and ns: "map pie_name (pie s) = [''Used'', ''Remaining'']"
    unfolding ps storage_pie_shape [OF ne(1)] by simp_all
  have un: "pie_value (hd (pie n)) =
      Math_min (Fin 100)
        (Math_round
           (js_mul
              (js_div (current n)
                 (Math_max (Fin 1)
                    (if last (metric.forecast n) = Fin 0 \<or> last (metric.forecast n) = NaN
                     then current n else last (metric.forecast n))))
              (Fin 100)))"
    and nn: "map pie_name (pie n) = [''Used'', ''Remaining'']"
    unfolding pn network_pie_shape [OF ne(2)] by simp_all
  have le: "pie_value (hd (pie s)) = NaN \<or> js_le (pie_value (hd (pie s))) (Fin 100)"
    "pie_value (hd (pie n)) = NaN \<or> js_le (pie_value (hd (pie n))) (Fin 100)"
    unfolding us un by (rule used_percent_upper)+
  have ge: "(pie_value (hd (pie s)) = NaN
              \<or> (\<exists>u. pie_value (hd (pie s)) = Fin u \<and> 0 \<le> u \<and> u \<le> 100))
           \<and> (pie_value (hd (pie n)) = NaN
              \<or> (\<exists>u. pie_value (hd (pie n)) = Fin u \<and> 0 \<le> u \<and> u \<le> 100))"
    if "hd fd = Fin x \<and> 0 \<le> x" for x
  proof -
    from that have "hd fd = PInf \<or> (\<exists>x. hd fd = Fin x \<and> 0 \<le> x)" by blast
    from toFixed_nonneg [OF this, of 2]
    have "current c = PInf \<or> (\<exists>x. current c = Fin x \<and> 0 \<le> x)"
      unfolding cc by (auto simp add: or_else_def)
    then have c0: "current c = PInf \<or> (\<exists>x. current c = Fin x \<and> 0 \<le> x)" .
    have "js_mul (current c) (lit (1 / 100)) = PInf
          \<or> (\<exists>x. js_mul (current c) (lit (1 / 100)) = Fin x \<and> 0 \<le> x)"
      unfolding lit_floor_consts by (rule mul_pos_nonneg [OF c0]) simp
    then have "js_mul (js_mul (current c) (lit (1 / 100))) (lit (25 / 10)) = PInf
          \<or> (\<exists>x. js_mul (js_mul (current c) (lit (1 / 100))) (lit (25 / 10)) = Fin x \<and> 0 \<le> x)"
      unfolding lit_floor_consts(3) by (rule mul_pos_nonneg) simp
    then have s0: "current s = PInf \<or> (\<exists>x. current s = Fin x \<and> 0 \<le> x)"
      unfolding cs by (rule toFixed_nonneg)
    have "js_mul (current c) (Fin 10) = PInf \<or> (\<exists>x. js_mul (current c) (Fin 10) = Fin x \<and> 0 \<le> x)"
      by (rule mul_pos_nonneg [OF c0]) simp
    then have n0: "current n = PInf \<or> (\<exists>x. current n = Fin x \<and> 0 \<le> x)"
      unfolding cn by (rule toFixed_nonneg)
    have a: "pie_value (hd (pie s)) = NaN
              \<or> (\<exists>u. pie_value (hd (pie s)) = Fin u \<and> 0 \<le> u \<and> u \<le> 100)"
      unfolding us lit_floor_consts(1) by (rule used_percent_range [OF s0]) simp
    have b: "pie_value (hd (pie n)) = NaN
              \<or> (\<exists>u. pie_value (hd (pie n)) = Fin u \<and> 0 \<le> u \<and> u \<le> 100)"
      unfolding un by (rule used_percent_range [OF n0]) simp
    from a b show ?thesis by blast
  qed
  have the: "the fdo = fd" by (simp add: fd(1))
  from idm ns nn le us un ge False show ?thesis
    unfolding s1 n2 the by blast
qed

lemma metrics_low_eval:
  "metrics (Some [Fin 2, Fin 0, Fin 0, Fin 0, Fin 0, Fin 0, Fin 2]) ! 1 =
     \<lparr>id' = ''storage'', title = ''Storage Usage'', unit = ''TB'', current = lit (5 / 100),
      forecast = [lit (5 / 100), Fin 0, Fin 0, Fin 0, Fin 0, Fin 0, lit (5 / 100)],
      pie = [\<lparr>pie_name = ''Used'', pie_value = Fin 50\<rparr>,
             \<lparr>pie_name = ''Remaining'', pie_value = Fin 50\<rparr>]\<rparr>"
  by code_simp

lemma metrics_negative_eval:
  "metrics (Some [Fin (- 40), Fin 0, Fin 0, Fin 0, Fin 0, Fin 0, Fin 0]) ! 1 =
     \<lparr>id' = ''storage'', title = ''Storage Usage'', unit = ''TB'', current = Fin (- 1),
      forecast = [Fin (- 1), Fin 0, Fin 0, Fin 0, Fin 0, Fin 0, Fin 0],
      pie = [\<lparr>pie_name = ''Used'', pie_value = Fin (- 1000)\<rparr>,
             \<lparr>pie_name = ''Remaining'', pie_value = Fin 1100\<rparr>]\<rparr>"
  by code_simp

lemma metrics_network_eval:
  "metrics (Some [Fin 23, Fin 0, Fin 0, Fin 0, Fin 0, Fin 0, Fin 40]) ! 2 =
     \<lparr>id' = ''network'', title = ''Network Bandwidth'', unit = ''Mbps'', current = Fin 230,
      forecast = [Fin 230, Fin 0, Fin 0, Fin 0, Fin 0, Fin 0, Fin 400],
      pie = [\<lparr>pie_name = ''Used'', pie_value = Fin 57\<rparr>,
             \<lparr>pie_name = ''Remaining'', pie_value = Fin 43\<rparr>]\<rparr>"
  by code_simp

text \<open>
  The claim as stated fails twice.  On the sequence \<open>2, 0, 0, 0, 0, 0, 2\<close> the storage
  metric has the current value 0.05 and the last forecast value 0.05, a ratio of 100
  percent, and its "Used" share is 50.  On the sequence \<open>-40, 0, 0, 0, 0, 0, 0\<close> the "Used"
  share of the storage metric is \<open>-1000\<close>.
\<close>

theorem used_share_counterexample:
  "current (metrics (Some [Fin 2, Fin 0, Fin 0, Fin 0, Fin 0, Fin 0, Fin 2]) ! 1) =
     last (metric.forecast (metrics (Some [Fin 2, Fin 0, Fin 0, Fin 0, Fin 0, Fin 0, Fin 2]) ! 1))
   \<and> pie_value (hd (pie (metrics (Some [Fin 2, Fin 0, Fin 0, Fin 0, Fin 0, Fin 0, Fin 2]) ! 1))) = Fin 50
   \<and> pie_value (hd (pie (metrics (Some [Fin (- 40), Fin 0, Fin 0, Fin 0, Fin 0, Fin 0, Fin 0]) ! 1)))
       = Fin (- 1000)
   \<and> js_lt (pie_value (hd (pie (metrics (Some [Fin (- 40), Fin 0, Fin 0, Fin 0, Fin 0, Fin 0, Fin 0]) ! 1))))
       (Fin 0)"
  unfolding metrics_low_eval metrics_negative_eval by simp

theorem used_share_witness:
  "pie_value (hd (pie (metrics (Some []) ! 1))) = Fin 0
   \<and> pie_value (hd (pie (metrics (Some []) ! 2))) = Fin 0
   \<and> hd (the (Some [Fin 23, Fin 0, Fin 0, Fin 0, Fin 0, Fin 0, Fin 40])) = Fin 23 \<and> (0 :: rat) \<le> 23
   \<and> pie_value (hd (pie (metrics (Some [Fin 23, Fin 0, Fin 0, Fin 0, Fin 0, Fin 0, Fin 40]) ! 2))) = Fin 57
   \<and> (\<exists>u. pie_value (hd (pie (metrics (Some [Fin 23, Fin 0, Fin 0, Fin 0, Fin 0, Fin 0, Fin 40]) ! 2)))
             = Fin u \<and> 0 \<le> u \<and> u \<le> 100)"
proof -
  define fd where "fd = [Fin 23, Fin 0, Fin 0, Fin 0, Fin 0, Fin 0, Fin 40]"
  have e: "(Some [] :: number list option) = None \<or> (Some [] :: number list option) = Some []"
    by simp
  have z: "pie_value (hd (pie (metrics (Some []) ! 1))) = Fin 0
           \<and> pie_value (hd (pie (metrics (Some []) ! 2))) = Fin 0"
    using used_share [of "Some []"] e by blast
  have d: "Some fd \<noteq> None \<and> Some fd \<noteq> Some []" by (simp add: fd_def)
  have h: "hd (the (Some fd)) = Fin 23 \<and> (0 :: rat) \<le> 23" by (simp add: fd_def)
  have v: "pie_value (hd (pie (metrics (Some fd) ! 2))) = Fin 57"
    unfolding fd_def metrics_network_eval by simp
  have "pie_value (hd (pie (metrics (Some fd) ! 2))) = NaN
        \<or> (\<exists>u. pie_value (hd (pie (metrics (Some fd) ! 2))) = Fin u \<and> 0 \<le> u \<and> u \<le> 100)"
    using used_share [of "Some fd"] d h by blast
  then have r: "\<exists>u. pie_value (hd (pie (metrics (Some fd) ! 2))) = Fin u \<and> 0 \<le> u \<and> u \<le> 100"
    unfolding v by simp
  from z h v r show ?thesis unfolding fd_def by blast
qed

subsection \<open>Capacity rows\<close>

lemma capacityRows_fetched:
  "capacityRows (Some cd) (Some fd) =
     map (\<lambda>(idx, week).
            week_row (or_else (capacity_response.capacity cd) (Fin 10000))
              (or_else (avg_forecast cd) (Fin 0)) fd week idx)
       [(0, ''Week 1''), (1, ''Week 2''), (2, ''Week 3''), (3, ''Week 4'')]"
  by (simp add: capacityRows_def Let_def enumerate_eq_zip upt_rec numeral_eq_Suc)

lemma generated_rows_eval:
  "map (\<lambda>d. capacity_point.extend d
              \<lparr>gap = js_sub (capacity_point.capacity d) (capacity_point.forecast d),
               status = getRisk (capacity_point.forecast d) (capacity_point.capacity d),
               band = Math_round (js_mul (capacity_point.forecast d) (lit (3 / 10)))\<rparr>)
     generateCapacityData =
     [\<lparr>date = ''Week 1'', forecast = Fin 120, capacity = Fin 155, lower = Fin 100, upper = Fin 135,
       gap = Fin 35, status = ''Sufficient'', band = Fin 36\<rparr>,
      \<lparr>date = ''Week 2'', forecast = Fin 135, capacity = Fin 140, lower = Fin 110, upper = Fin 145,
       gap = Fin 5, status = ''Over / Slight risk'', band = Fin 41\<rparr>,
      \<lparr>date = ''Week 3'', forecast = Fin 150, capacity = Fin 150, lower = Fin 120, upper = Fin 155,
       gap = Fin 0, status = ''Over / Slight risk'', band = Fin 45\<rparr>,
      \<lparr>date = ''Week 4'', forecast = Fin 170, capacity = Fin 165, lower = Fin 130, upper = Fin 165,
       gap = Fin (- 5), status = ''Over / Slight risk'', band = Fin 51\<rparr>]"
  by code_simp

lemma capacityRows_fallback:
  "cd = None \<or> fd = None \<Longrightarrow> capacityRows cd fd =
     [\<lparr>date = ''Week 1'', forecast = Fin 120, capacity = Fin 155, lower = Fin 100, upper = Fin 135,
       gap = Fin 35, status = ''Sufficient'', band = Fin 36\<rparr>,
      \<lparr>date = ''Week 2'', forecast = Fin 135, capacity = Fin 140, lower = Fin 110, upper = Fin 145,
       gap = Fin 5, status = ''Over / Slight risk'', band = Fin 41\<rparr>,
      \<lparr>date = ''Week 3'', forecast = Fin 150, capacity = Fin 150, lower = Fin 120, upper = Fin 155,
       gap = Fin 0, status = ''Over / Slight risk'', band = Fin 45\<rparr>,
      \<lparr>date = ''Week 4'', forecast = Fin 170, capacity = Fin 165, lower = Fin 130, upper = Fin 165,
       gap = Fin (- 5), status = ''Over / Slight risk'', band = Fin 51\<rparr>]"
  unfolding generated_rows_eval [symmetric] by (simp only: capacityRows_def if_True)

lemma fallback_gaps:
  "js_sub (Fin 155) (Fin 120) = Fin 35" "js_sub (Fin 140) (Fin 135) = Fin 5"
  "js_sub (Fin 150) (Fin 150) = Fin 0" "js_sub (Fin 165) (Fin 170) = Fin (- 5)"
  by code_simp+

lemma week_row_fields:
  "date (week_row cap avg fd week idx) = week"
  "capacity_point.forecast (week_row cap avg fd week idx) =
     Number_toFixed (or_else (elem_at fd (int idx)) avg) 2"
  "capacity_point.capacity (week_row cap avg fd week idx) =
     js_add cap (js_mul (Fin (of_nat idx)) (Fin 100))"
  "gap (week_row cap avg fd week idx) =
     Number_toFixed
       (js_sub (js_add cap (js_mul (Fin (of_nat idx)) (Fin 100))) (or_else (elem_at fd (int idx)) avg)) 2"
  by (simp_all add: week_row_def Let_def del: Number_toFixed.simps js_mul.simps js_add.simps)

text \<open>
  Claim C9, as the code has it.  The capacity table always has exactly the four rows
  "Week 1" to "Week 4", on the fallback path and on the fetched path.  On the fallback
  path the gap of every row is the double difference of its capacity and its forecast.
  On the fetched path the forecast value of row \<open>i\<close> is \<open>forecastData[i]\<close>, or the average
  forecast where that is missing, 0 or \<open>NaN\<close>; the forecast field is that value rounded to
  2 decimals, the capacity field is the double sum of the capacity and \<open>100 * i\<close>, and the
  gap field is the double difference of the capacity field and the forecast value before
  its rounding, rounded to 2 decimals.
\<close>

theorem capacity_rows_table:
  "map date (capacityRows cd fd) = [''Week 1'', ''Week 2'', ''Week 3'', ''Week 4'']
   \<and> (cd = None \<or> fd = None \<longrightarrow>
         (\<forall>r \<in> set (capacityRows cd fd).
            gap r = js_sub (capacity_point.capacity r) (capacity_point.forecast r)))
   \<and> (cd \<noteq> None \<and> fd \<noteq> None \<longrightarrow>
         (\<forall>i < 4.
            capacity_point.forecast (capacityRows cd fd ! i) =
              Number_toFixed
                (or_else (elem_at (the fd) (int i)) (or_else (avg_forecast (the cd)) (Fin 0))) 2
          \<and> rounded_to_2_decimals
              (or_else (elem_at (the fd) (int i)) (or_else (avg_forecast (the cd)) (Fin 0)))
              (capacity_point.forecast (capacityRows cd fd ! i))
          \<and> capacity_point.capacity (capacityRows cd fd ! i) =
              js_add (or_else (capacity_response.capacity (the cd)) (Fin 10000))
                (js_mul (Fin (of_nat i)) (Fin 100))
          \<and> gap (capacityRows cd fd ! i) =
              Number_toFixed
                (js_sub (capacity_point.capacity (capacityRows cd fd ! i))
                   (or_else (elem_at (the fd) (int i)) (or_else (avg_forecast (the cd)) (Fin 0)))) 2
          \<and> rounded_to_2_decimals
              (js_sub (capacity_point.capacity (capacityRows cd fd ! i))
                 (or_else (elem_at (the fd) (int i)) (or_else (avg_forecast (the cd)) (Fin 0))))
              (gap (capacityRows cd fd ! i))))"
proof (cases "cd = None \<or> fd = None")
  case True
  have nf: "\<not> (cd \<noteq> None \<and> fd \<noteq> None)" using True by blast
  have a: "map date (capacityRows cd fd) = [''Week 1'', ''Week 2'', ''Week 3'', ''Week 4'']"
    unfolding capacityRows_fallback [OF True] by simp
  have b: "\<forall>r \<in> set (capacityRows cd fd).
            gap r = js_sub (capacity_point.capacity r) (capacity_point.forecast r)"
    unfolding capacityRows_fallback [OF True]
    by (simp add: fallback_gaps del: js_add.simps)
  from a b nf show ?thesis by blast
next
  case False
  then obtain c f where cf: "cd = Some c" "fd = Some f" by auto
  have a: "map date (capacityRows cd fd) = [''Week 1'', ''Week 2'', ''Week 3'', ''Week 4'']"
    unfolding cf capacityRows_fetched by (simp add: week_row_fields)
  have b: "capacity_point.forecast (capacityRows cd fd ! i) =
              Number_toFixed
                (or_else (elem_at (the fd) (int i)) (or_else (avg_forecast (the cd)) (Fin 0))) 2
          \<and> rounded_to_2_decimals
              (or_else (elem_at (the fd) (int i)) (or_else (avg_forecast (the cd)) (Fin 0)))
              (capacity_point.forecast (capacityRows cd fd ! i))
          \<and> capacity_point.capacity (capacityRows cd fd ! i) =
              js_add (or_else (capacity_response.capacity (the cd)) (Fin 10000))
                (js_mul (Fin (of_nat i)) (Fin 100))
          \<and> gap (capacityRows cd fd ! i) =
              Number_toFixed
                (js_sub (capacity_point.capacity (capacityRows cd fd ! i))
                   (or_else (elem_at (the fd) (int i)) (or_else (avg_forecast (the cd)) (Fin 0)))) 2
          \<and> rounded_to_2_decimals
              (js_sub (capacity_point.capacity (capacityRows cd fd ! i))
                 (or_else (elem_at (the fd) (int i)) (or_else (avg_forecast (the cd)) (Fin 0))))
              (gap (capacityRows cd fd ! i))"
    if "i < 4" for i
  proof -
    from that have "i = 0 \<or> i = 1 \<or> i = 2 \<or> i = 3" by auto
    then obtain week where
      r: "capacityRows cd fd ! i =
            week_row (or_else (capacity_response.capacity c) (Fin 10000))
              (or_else (avg_forecast c) (Fin 0)) f week i"
      unfolding cf capacityRows_fetched by auto
    have t: "the cd = c" "the fd = f" by (simp_all add: cf)
    show ?thesis
      unfolding r t week_row_fields
      by (simp only: Number_toFixed_rounded simp_thms)
  qed
  from a b False show ?thesis by blast
qed

lemma tie_row_eval:
  "week_row (Fin 10000) (Fin 5) [Fin (1 / 8), Fin 50, Fin 60, Fin 70, Fin 80, Fin 90, Fin 100]
     ''Week 1'' 0 =
   \<lparr>date = ''Week 1'', forecast = lit (13 / 100), capacity = Fin 10000, lower = lit (11 / 100),
     upper = lit (14 / 100), gap = lit (999988 / 100), status = ''Sufficient'',
     band = lit (4 / 100)\<rparr>"
  by code_simp

lemma tie_gap_eval:
  "Number_toFixed (js_sub (Fin 10000) (lit (13 / 100))) 2 = lit (999987 / 100)"
  "lit (999988 / 100) \<noteq> lit (999987 / 100)"
  by code_simp+

lemma small_row_eval:
  "week_row (Fin 10000) (Fin 5) [lit (45 / 1000), Fin 0] ''Week 1'' 0 =
   \<lparr>date = ''Week 1'', forecast = lit (4 / 100), capacity = Fin 10000, lower = lit (4 / 100),
     upper = lit (5 / 100), gap = lit (999995 / 100), status = ''Sufficient'',
     band = lit (1 / 100)\<rparr>"
  by code_simp

lemma capacityRows_first:
  "capacityRows (Some \<lparr>capacity_response.capacity = Some cap, avg_forecast = Some avg\<rparr>) (Some fd) ! 0 =
     week_row (or_else (Some cap) (Fin 10000)) (or_else (Some avg) (Fin 0)) fd ''Week 1'' 0"
  unfolding capacityRows_fetched by simp

lemma or_else_Some: "v \<noteq> Fin 0 \<Longrightarrow> v \<noteq> NaN \<Longrightarrow> or_else (Some v) d = v"
  by (simp add: or_else_def)

lemma tie_gap_neq: "js_sub (Fin 10000) (lit (13 / 100)) \<noteq> lit (999988 / 100)"
  by code_simp

text \<open>
  The claim as stated fails on the fetched path.  With a capacity of 10000 and a first
  forecast of 0.125 the first row shows the forecast 0.13, the capacity 10000 and the gap
  9999.88, while the capacity minus the forecast of the row is 9999.87.
\<close>

theorem capacity_rows_gap_counterexample:
  "capacity_point.forecast
      (capacityRows (Some \<lparr>capacity_response.capacity = Some (Fin 10000), avg_forecast = Some (Fin 5)\<rparr>)
         (Some [Fin (1 / 8), Fin 50, Fin 60, Fin 70, Fin 80, Fin 90, Fin 100]) ! 0) = lit (13 / 100)
   \<and> capacity_point.capacity
      (capacityRows (Some \<lparr>capacity_response.capacity = Some (Fin 10000), avg_forecast = Some (Fin 5)\<rparr>)
         (Some [Fin (1 / 8), Fin 50, Fin 60, Fin 70, Fin 80, Fin 90, Fin 100]) ! 0) = Fin 10000
   \<and> gap
      (capacityRows (Some \<lparr>capacity_response.capacity = Some (Fin 10000), avg_forecast = Some (Fin 5)\<rparr>)
         (Some [Fin (1 / 8), Fin 50, Fin 60, Fin 70, Fin 80, Fin 90, Fin 100]) ! 0) = lit (999988 / 100)
   \<and> rounded_to_2_decimals (js_sub (Fin 10000) (lit (13 / 100))) (lit (999987 / 100))
   \<and> \<not> rounded_to_2_decimals (js_sub (Fin 10000) (lit (13 / 100))) (lit (999988 / 100))
   \<and> js_sub (Fin 10000) (lit (13 / 100)) \<noteq> lit (999988 / 100)"
proof -
  have row: "capacityRows (Some \<lparr>capacity_response.capacity = Some (Fin 10000), avg_forecast = Some (Fin 5)\<rparr>)
         (Some [Fin (1 / 8), Fin 50, Fin 60, Fin 70, Fin 80, Fin 90, Fin 100]) ! 0 =
       \<lparr>date = ''Week 1'', forecast = lit (13 / 100), capacity = Fin 10000, lower = lit (11 / 100),
         upper = lit (14 / 100), gap = lit (999988 / 100), status = ''Sufficient'',
         band = lit (4 / 100)\<rparr>"
    unfolding capacityRows_first by (simp add: or_else_Some tie_row_eval)
  have r87: "rounded_to_2_decimals (js_sub (Fin 10000) (lit (13 / 100))) (lit (999987 / 100))"
    using Number_toFixed_rounded [of "js_sub (Fin 10000) (lit (13 / 100))"]
    unfolding tie_gap_eval(1) .
  have r88: "\<not> rounded_to_2_decimals (js_sub (Fin 10000) (lit (13 / 100))) (lit (999988 / 100))"
  proof
    assume "rounded_to_2_decimals (js_sub (Fin 10000) (lit (13 / 100))) (lit (999988 / 100))"
    from rounded_to_2_decimals_unique [OF this r87] show False using tie_gap_eval(2) by simp
  qed
  show ?thesis unfolding row using r87 r88 tie_gap_neq by simp
qed

theorem capacity_rows_table_witness:
  "(None :: capacity_response option) = None
   \<and> capacityRows None None ! 3 \<in> set (capacityRows None None)
   \<and> gap (capacityRows None None ! 3) = Fin (- 5)
   \<and> Some \<lparr>capacity_response.capacity = Some (Fin 10000), avg_forecast = Some (Fin 5)\<rparr> \<noteq> None
   \<and> Some [lit (45 / 1000), Fin 0] \<noteq> None
   \<and> (0 :: nat) < 4
   \<and> capacity_point.forecast
         (capacityRows (Some \<lparr>capacity_response.capacity = Some (Fin 10000), avg_forecast = Some (Fin 5)\<rparr>)
            (Some [lit (45 / 1000), Fin 0]) ! 0) = lit (4 / 100)
   \<and> gap (capacityRows (Some \<lparr>capacity_response.capacity = Some (Fin 10000), avg_forecast = Some (Fin 5)\<rparr>)
            (Some [lit (45 / 1000), Fin 0]) ! 0) = lit (999995 / 100)
   \<and> rounded_to_2_decimals (js_sub (Fin 10000) (lit (45 / 1000))) (lit (999995 / 100))"
proof -
  define cd where "cd = Some \<lparr>capacity_response.capacity = Some (Fin 10000), avg_forecast = Some (Fin 5)\<rparr>"
  define fd where "fd = Some [lit (45 / 1000), Fin 0]"
  have n: "(None :: capacity_response option) = None \<or> (None :: number list option) = None"
    by simp
  have m: "capacityRows None None ! 3 \<in> set (capacityRows None None)"
    by (simp add: capacityRows_fallback)
  have fb: "gap (capacityRows None None ! 3) =
              js_sub (capacity_point.capacity (capacityRows None None ! 3))
                (capacity_point.forecast (capacityRows None None ! 3))"
    using capacity_rows_table [of None None] n m by blast
  have g: "gap (capacityRows None None ! 3) = Fin (- 5)"
    unfolding fb by (simp add: capacityRows_fallback fallback_gaps del: js_add.simps)
  have d: "cd \<noteq> None \<and> fd \<noteq> None" by (simp add: cd_def fd_def)
  have i: "(0 :: nat) < 4" by simp
  have row: "capacityRows cd fd ! 0 =
     \<lparr>date = ''Week 1'', forecast = lit (4 / 100), capacity = Fin 10000, lower = lit (4 / 100),
       upper = lit (5 / 100), gap = lit (999995 / 100), status = ''Sufficient'',
       band = lit (1 / 100)\<rparr>"
  proof -
    have oe: "or_else (Some (Fin 10000)) (Fin 10000) = Fin 10000" "or_else (Some (Fin 5)) (Fin 0) = Fin 5"
      by (simp_all add: or_else_def)
    show ?thesis unfolding cd_def fd_def capacityRows_first oe by (rule small_row_eval)
  qed
  have v: "or_else (elem_at (the fd) (int 0)) (or_else (avg_forecast (the cd)) (Fin 0)) = lit (45 / 1000)"
  proof -
    have "lit (45 / 1000) \<noteq> Fin 0" "lit (45 / 1000) \<noteq> NaN" by code_simp+
    then show ?thesis by (simp add: fd_def cd_def elem_at_def or_else_def)
  qed
  have "rounded_to_2_decimals
          (js_sub (capacity_point.capacity (capacityRows cd fd ! 0))
             (or_else (elem_at (the fd) (int 0)) (or_else (avg_forecast (the cd)) (Fin 0))))
          (gap (capacityRows cd fd ! 0))"
    using capacity_rows_table [of cd fd] d i by blast
  then have r: "rounded_to_2_decimals (js_sub (Fin 10000) (lit (45 / 1000))) (lit (999995 / 100))"
    unfolding v row by simp
  have f: "capacity_point.forecast (capacityRows cd fd ! 0) = lit (4 / 100)"
    and gp: "gap (capacityRows cd fd ! 0) = lit (999995 / 100)"
    unfolding row by simp_all
  from n m g d i f gp r show ?thesis unfolding cd_def fd_def by simp
qed

subsection \<open>High-risk alerts\<close>

lemma risk_effect_append:
  "risk_effect rows ms toasts = toasts @ risk_effect rows ms []"
  by (simp add: risk_effect_def showHighRiskAlert_def Let_def split: option.splits)

text \<open>
  Claim C7.  For all capacity rows and metrics, one run of the alert effect adds its
  toasts after the ones already shown and removes none.  It adds at least one exactly
  when the CPU metric exists with a last forecast entry above 80, or the row labelled
  "Week 4" exists with status "Shortage"; each of the two conditions adds one toast of
  its own, so both together add two.
\<close>

theorem risk_effect_alerts:
  "risk_effect rows ms toasts = toasts @ risk_effect rows ms []
   \<and> (risk_effect rows ms [] \<noteq> [] \<longleftrightarrow>
        (\<exists>m. find (\<lambda>m. id' m = ''cpu'') ms = Some m
              \<and> metric.forecast m \<noteq> [] \<and> js_gt (last (metric.forecast m)) (Fin 80))
      \<or> (\<exists>w. find (\<lambda>r. date r = ''Week 4'') rows = Some w \<and> status w = ''Shortage''))
   \<and> length (risk_effect rows ms []) =
        (if \<exists>w. find (\<lambda>r. date r = ''Week 4'') rows = Some w \<and> status w = ''Shortage''
         then 1 else 0)
      + (if \<exists>m. find (\<lambda>m. id' m = ''cpu'') ms = Some m
               \<and> metric.forecast m \<noteq> [] \<and> js_gt (last (metric.forecast m)) (Fin 80)
         then 1 else 0)"
proof (intro conjI)
  show "risk_effect rows ms toasts = toasts @ risk_effect rows ms []"
    by (rule risk_effect_append)
next
  show "risk_effect rows ms [] \<noteq> [] \<longleftrightarrow>
        (\<exists>m. find (\<lambda>m. id' m = ''cpu'') ms = Some m
              \<and> metric.forecast m \<noteq> [] \<and> js_gt (last (metric.forecast m)) (Fin 80))
      \<or> (\<exists>w. find (\<lambda>r. date r = ''Week 4'') rows = Some w \<and> status w = ''Shortage'')"
    by (cases "find (\<lambda>r. date r = ''Week 4'') rows"; cases "find (\<lambda>m. id' m = ''cpu'') ms")
      (auto simp add: risk_effect_def showHighRiskAlert_def Let_def elem_at_last_opt
        split: if_splits)
next
  show "length (risk_effect rows ms []) =
        (if \<exists>w. find (\<lambda>r. date r = ''Week 4'') rows = Some w \<and> status w = ''Shortage''
         then 1 else 0)
      + (if \<exists>m. find (\<lambda>m. id' m = ''cpu'') ms = Some m
               \<and> metric.forecast m \<noteq> [] \<and> js_gt (last (metric.forecast m)) (Fin 80)
         then 1 else 0)"
    by (cases "find (\<lambda>r. date r = ''Week 4'') rows"; cases "find (\<lambda>m. id' m = ''cpu'') ms")
      (auto simp add: risk_effect_def showHighRiskAlert_def Let_def elem_at_last_opt
        split: if_splits)
qed

lemma find_week4:
  "find (\<lambda>r. date r = ''Week 4'') (capacityRows (Some cd) (Some fd)) =
     Some (week_row (or_else (capacity_response.capacity cd) (Fin 10000))
             (or_else (avg_forecast cd) (Fin 0)) fd ''Week 4'' 3)"
  unfolding capacityRows_fetched by (simp add: week_row_fields)

lemma shortage_row_eval:
  "status (week_row (Fin 100) (Fin 0) [Fin 50, Fin 60, Fin 70, Fin 20000, Fin 85, Fin 90, Fin 95]
             ''Week 4'' 3) = ''Shortage''"
  by code_simp

lemma high_cpu_eval: "Number_toFixed (Fin 95) 2 = Fin 95"
  by code_simp

theorem risk_effect_alerts_witness:
  "risk_effect
     (capacityRows (Some \<lparr>capacity_response.capacity = Some (Fin 100), avg_forecast = None\<rparr>)
        (Some [Fin 50, Fin 60, Fin 70, Fin 20000, Fin 85, Fin 90, Fin 95]))
     (metrics (Some [Fin 50, Fin 60, Fin 70, Fin 20000, Fin 85, Fin 90, Fin 95])) [] \<noteq> []
   \<and> length
       (risk_effect
          (capacityRows (Some \<lparr>capacity_response.capacity = Some (Fin 100), avg_forecast = None\<rparr>)
             (Some [Fin 50, Fin 60, Fin 70, Fin 20000, Fin 85, Fin 90, Fin 95]))
          (metrics (Some [Fin 50, Fin 60, Fin 70, Fin 20000, Fin 85, Fin 90, Fin 95])) []) = 2"
proof -
  define fd where "fd = [Fin 50, Fin 60, Fin 70, Fin 20000, Fin 85, Fin 90, Fin 95]"
  define rows where
    "rows = capacityRows (Some \<lparr>capacity_response.capacity = Some (Fin 100), avg_forecast = None\<rparr>)
              (Some fd)"
  define ms where "ms = metrics (Some fd)"
  have oe: "or_else (Some (Fin 100)) (Fin 10000) = Fin 100" "or_else None (Fin 0) = Fin 0"
    by (simp_all add: or_else_def)
  have "find (\<lambda>r. date r = ''Week 4'') rows = Some (week_row (Fin 100) (Fin 0) fd ''Week 4'' 3)"
    unfolding rows_def find_week4 by (simp add: oe)
  moreover have "status (week_row (Fin 100) (Fin 0) fd ''Week 4'' 3) = ''Shortage''"
    unfolding fd_def by (rule shortage_row_eval)
  ultimately have w: "\<exists>w. find (\<lambda>r. date r = ''Week 4'') rows = Some w \<and> status w = ''Shortage''"
    by simp
  have ne: "fd \<noteq> []" by (simp add: fd_def)
  from metrics_finds [OF ne] obtain m where
    m: "find (\<lambda>m. id' m = ''cpu'') ms = Some m"
    and fm: "metric.forecast m = map (\<lambda>v. Number_toFixed v 2) (take 7 fd)"
    unfolding ms_def by blast
  have "metric.forecast m \<noteq> []" unfolding fm by (simp add: fd_def)
  moreover have "last (metric.forecast m) = Number_toFixed (Fin 95) 2"
    unfolding fm by (simp add: fd_def del: Number_toFixed.simps)
  then have "js_gt (last (metric.forecast m)) (Fin 80)"
    unfolding high_cpu_eval by (simp add: js_gt_def)
  ultimately have c: "\<exists>m. find (\<lambda>m. id' m = ''cpu'') ms = Some m
               \<and> metric.forecast m \<noteq> [] \<and> js_gt (last (metric.forecast m)) (Fin 80)"
    using m by blast
  from risk_effect_alerts [of rows ms "[]"] w c
  have "risk_effect rows ms [] \<noteq> [] \<and> length (risk_effect rows ms []) = 2"
    by simp
  then show ?thesis unfolding rows_def ms_def fd_def .
qed

subsection \<open>Region toggling\<close>

lemma toggle_twice_absent:
  "n \<notin> set s \<Longrightarrow> toggle_selected n (toggle_selected n s) = s"
  by (auto simp add: toggle_selected_def filter_id_conv)

lemma toggle_twice_present:
  "n \<in> set s \<Longrightarrow> toggle_selected n (toggle_selected n s) = filter (\<lambda>r. r \<noteq> n) s @ [n]"
  by (simp add: toggle_selected_def)

text \<open>
  Claim C6.  For every state of the multi-region view and every region name, toggling
  the name twice leaves the set of selected regions as it was, and does not touch the
  loaded regions.
\<close>

theorem toggle_region_twice:
  "set (selectedRegions (handleToggleRegion n (handleToggleRegion n st))) = set (selectedRegions st)
   \<and> allRegions (handleToggleRegion n (handleToggleRegion n st)) = allRegions st"
proof (cases "n \<in> set (selectedRegions st)")
  case True
  then show ?thesis
    by (auto simp add: handleToggleRegion_def toggle_twice_present)
next
  case False
  then show ?thesis
    by (simp add: handleToggleRegion_def toggle_twice_absent)
qed

subsection \<open>Loading failures\<close>











subsection \<open>Notification bell\<close>

text \<open>
  Claim C10.  When the bell is clicked while the popover is closed: a rejected alerts
  request leaves exactly the one system notification of severity "low" that says the
  backend is not responding; a response whose \<open>alerts\<close> field is an array leaves that
  array; a response whose \<open>alerts\<close> field is anything else leaves the empty list.  In
  every case the popover is then open and the loading flag is cleared.
\<close>

theorem bell_notifications:
  assumes "\<not> showNotifications s"
  shows "notifications (handleBellClick s (Inl e)) =
           [\<lparr>ntype = ''system'',
             message = ''Notifications unavailable. Backend not responding.'',
             severity = ''low''\<rparr>]
       \<and> notifications (handleBellClick s (Inr \<lparr>alerts = Arr as\<rparr>)) = as
       \<and> ((\<forall>xs. alerts d \<noteq> Arr xs) \<longrightarrow> notifications (handleBellClick s (Inr d)) = [])
       \<and> showNotifications (handleBellClick s r) \<and> \<not> notifLoading (handleBellClick s r)"
  using assms
  by (auto simp add: handleBellClick_def Let_def split: sum.splits alerts_field.splits)

theorem bell_notifications_witness:
  "\<not> showNotifications \<lparr>showNotifications = False, notifications = [], notifLoading = False\<rparr>
   \<and> (\<forall>xs. alerts \<lparr>alerts = Null\<rparr> \<noteq> Arr xs)
   \<and> notifications
        (handleBellClick \<lparr>showNotifications = False, notifications = [], notifLoading = False\<rparr>
           (Inl ''timeout'')) =
        [\<lparr>ntype = ''system'',
          message = ''Notifications unavailable. Backend not responding.'',
          severity = ''low''\<rparr>]
   \<and> notifications
        (handleBellClick \<lparr>showNotifications = False, notifications = [], notifLoading = False\<rparr>
           (Inr \<lparr>alerts = Arr [\<lparr>ntype = ''cpu'', message = ''CPU above 80'',
                                  severity = ''high''\<rparr>]\<rparr>)) =
        [\<lparr>ntype = ''cpu'', message = ''CPU above 80'', severity = ''high''\<rparr>]
   \<and> notifications
        (handleBellClick \<lparr>showNotifications = False, notifications = [], notifLoading = False\<rparr>
           (Inr \<lparr>alerts = Null\<rparr>)) = []"
proof -
  define s0 where "s0 = \<lparr>showNotifications = False, notifications = [], notifLoading = False\<rparr>"
  have h: "\<not> showNotifications s0" by (simp add: s0_def)
  have n: "\<forall>xs. alerts \<lparr>alerts = Null\<rparr> \<noteq> Arr xs" by simp
  from bell_notifications [OF h, of "''timeout''"
      "[\<lparr>ntype = ''cpu'', message = ''CPU above 80'', severity = ''high''\<rparr>]"
      "\<lparr>alerts = Null\<rparr>"] n h
  show ?thesis unfolding s0_def by blast
qed

end
